theory Spec2Isabelle
  imports Complex_Main
begin

section \<open>JavaScript strings\<close>

text \<open>
  A JavaScript string is a sequence of UTF-16 code units. The model uses HOL's
  \<open>string\<close>, whose characters are the code units below 256 (Latin-1), so
  \<open>length\<close> is JavaScript's \<open>.length\<close> on such strings.

  \<open>String.prototype.toLowerCase\<close> maps \<open>A\<close>..\<open>Z\<close> and, in the Latin-1 block,
  U+00C0..U+00DE except the multiplication sign U+00D7, to the code unit 32 above;
  every other code unit below 256 is left as it is.
\<close>

definition toLowerCaseChar :: "char \<Rightarrow> char" where
  "toLowerCaseChar c =
     (let n = (of_char c :: nat)
      in if (65 \<le> n \<and> n \<le> 90) \<or> (192 \<le> n \<and> n \<le> 222 \<and> n \<noteq> 215)
         then char_of (n + 32) else c)"

definition toLowerCase :: "string \<Rightarrow> string" where
  "toLowerCase s = map toLowerCaseChar s"

text \<open>
  \<open>s.indexOf(sub)\<close>: the first position at which \<open>sub\<close> occurs in \<open>s\<close>, or \<open>-1\<close>.
  \<open>s.includes(sub)\<close> holds exactly when there is such a position.
\<close>

fun indexOfFrom :: "nat \<Rightarrow> string \<Rightarrow> string \<Rightarrow> int" where
  "indexOfFrom i [] sub = (if sub = [] then int i else - 1)"
| "indexOfFrom i (c # s) sub =
     (if take (length sub) (c # s) = sub then int i else indexOfFrom (Suc i) s sub)"

definition indexOf :: "string \<Rightarrow> string \<Rightarrow> int" where
  "indexOf s sub = indexOfFrom 0 s sub"

definition includesStr :: "string \<Rightarrow> string \<Rightarrow> bool" where
  "includesStr s sub = (indexOf s sub \<noteq> - 1)"

text \<open>\<open>s.substring(start, end)\<close> for \<open>0 \<le> start \<le> end\<close>.\<close>

definition substring :: "string \<Rightarrow> nat \<Rightarrow> nat \<Rightarrow> string" where
  "substring s start end = take (end - start) (drop start s)"

text \<open>
  Truthiness of an optional string (\<open>if (query.text)\<close>): \<open>undefined\<close> and the empty
  string are falsy.
\<close>

fun truthyStr :: "string option \<Rightarrow> bool" where
  "truthyStr None = False"
| "truthyStr (Some s) = (s \<noteq> [])"


section \<open>The data model of the project index\<close>

text \<open>
  The interfaces of \<open>project-indexer.ts\<close>. HOL record fields share one name space,
  so each field carries a prefix for its interface (\<open>c_\<close> for \<open>ComponentIndex\<close>,
  \<open>p_\<close> for \<open>PageIndex\<close>, \<open>prop_\<close> for \<open>PropDefinition\<close>, \<open>m_\<close> for the
  metadata, \<open>q_\<close> for \<open>SearchQuery\<close>). An optional field \<open>f?: T\<close> is a
  \<open>T option\<close>. A \<open>Record<string, string>\<close> is the list of its entries in property order.

  A field declared \<open>Date\<close> holds, at run time, either a \<open>Date\<close> object (its time
  value in milliseconds since the epoch) or, in an index that came out of
  \<open>JSON.parse\<close>, a string; \<open>timestamp\<close> has both.
\<close>

datatype timestamp = DateObj int | DateString string

record BoundingBox =
  bb_x :: int
  bb_y :: int
  bb_width :: int
  bb_height :: int

record Screenshots =
  s_desktop :: "string option"
  s_tablet :: "string option"
  s_mobile :: "string option"

record Bounds =
  b_desktop :: "BoundingBox option"
  b_tablet :: "BoundingBox option"
  b_mobile :: "BoundingBox option"

record PropDefinition =
  prop_name :: string
  prop_type :: string
  prop_required :: bool
  prop_defaultValue :: "string option"
  prop_description :: "string option"

record Styles =
  st_css :: string
  st_computedStyles :: "(string \<times> string) list"

record ComponentIndex =
  c_id :: string
  c_name :: string
  c_filePath :: string
  c_sourceCode :: string
  c_screenshots :: Screenshots
  c_bounds :: Bounds
  c_props :: "PropDefinition list"
  c_imports :: "string list"
  c_dependencies :: "string list"
  c_styles :: Styles
  c_usedIn :: "string list"
  c_children :: "string list"
  c_description :: string
  c_tags :: "string list"
  c_lastModified :: timestamp

record PageIndex =
  p_id :: string
  p_name :: string
  p_route :: string
  p_filePath :: string
  p_components :: "string list"
  p_screenshots :: Screenshots

datatype Framework = React | Vue | Angular | Unknown

record Metadata =
  m_projectPath :: string
  m_framework :: Framework
  m_lastIndexed :: timestamp
  m_componentsCount :: int
  m_pagesCount :: int

record Embedding =
  e_visual :: "int list"
  e_semantic :: "int list"

record ProjectIndex =
  metadata :: Metadata
  components :: "ComponentIndex list"
  pages :: "PageIndex list"
  embeddings :: "(string \<times> Embedding) list option"


section \<open>The search engine\<close>

datatype ComponentType = Functional | Class | Any

record SearchQuery =
  q_text :: "string option"
  q_tags :: "string list option"
  q_framework :: "string option"
  q_componentType :: "ComponentType option"
  q_hasProps :: "bool option"
  q_hasSideEffects :: "bool option"
  q_usedIn :: "string list option"

record Match =
  field :: string
  snippet :: string
  highlightStart :: int
  highlightEnd :: int

record SearchResult =
  component :: ComponentIndex
  relevanceScore :: int
  matches :: "Match list"

subsection \<open>\<open>calculateRelevanceScore\<close>\<close>

text \<open>
  The function adds to one running \<open>score\<close> in six consecutive blocks and returns
  \<open>Math.max(0, score)\<close>. Each block is one definition below, giving what the block
  adds; all scores are integers.
\<close>

text \<open>The loop over \<open>component.props\<close> inside the text block.\<close>

fun propsTextScore :: "PropDefinition list \<Rightarrow> string \<Rightarrow> int" where
  "propsTextScore [] searchText = 0"
| "propsTextScore (prop # props) searchText =
     (if includesStr (toLowerCase (prop_name prop)) searchText
         \<or> includesStr (toLowerCase (prop_type prop)) searchText
      then 3 else 0) + propsTextScore props searchText"

definition textScore :: "ComponentIndex \<Rightarrow> SearchQuery \<Rightarrow> int" where
  "textScore c q =
     (case q_text q of
        None \<Rightarrow> 0
      | Some text \<Rightarrow>
          if text = [] then 0
          else
            (let searchText = toLowerCase text
             in (if includesStr (toLowerCase (c_name c)) searchText then 10 else 0)
              + (if includesStr (toLowerCase (c_description c)) searchText then 5 else 0)
              + (if includesStr (toLowerCase (c_sourceCode c)) searchText then 2 else 0)
              + propsTextScore (c_props c) searchText))"

definition tagScore :: "ComponentIndex \<Rightarrow> SearchQuery \<Rightarrow> int" where
  "tagScore c q =
     (case q_tags q of
        None \<Rightarrow> 0
      | Some tags \<Rightarrow>
          if length tags > 0
          then int (length (filter (\<lambda>tag. tag \<in> set tags) (c_tags c))) * 4
          else 0)"

definition typeScore :: "ComponentIndex \<Rightarrow> SearchQuery \<Rightarrow> int" where
  "typeScore c q =
     (case q_componentType q of
        None \<Rightarrow> 0
      | Some Any \<Rightarrow> 0
      | Some t \<Rightarrow>
          (let isFunctional = (includesStr (c_sourceCode c) ''function ''
                               \<or> includesStr (c_sourceCode c) ''const ''
                               \<or> includesStr (c_sourceCode c) ''=>'');
               isClass = (includesStr (c_sourceCode c) ''class ''
                          \<or> includesStr (c_sourceCode c) ''extends'')
           in if t = Functional \<and> isFunctional then 2
              else if t = Class \<and> isClass then 2
              else - 5))"

definition hasPropsScore :: "ComponentIndex \<Rightarrow> SearchQuery \<Rightarrow> int" where
  "hasPropsScore c q =
     (case q_hasProps q of
        None \<Rightarrow> 0
      | Some wanted \<Rightarrow>
          (let hasProps = (length (c_props c) > 0)
           in if wanted = hasProps then 2 else - 3))"

definition sideEffectsScore :: "ComponentIndex \<Rightarrow> SearchQuery \<Rightarrow> int" where
  "sideEffectsScore c q =
     (case q_hasSideEffects q of
        None \<Rightarrow> 0
      | Some wanted \<Rightarrow>
          (let hasSideEffects = (''side-effects'' \<in> set (c_tags c))
           in if wanted = hasSideEffects then 2 else - 3))"

definition usedInScore :: "ComponentIndex \<Rightarrow> SearchQuery \<Rightarrow> int" where
  "usedInScore c q =
     (case q_usedIn q of
        None \<Rightarrow> 0
      | Some wanted \<Rightarrow>
          if length wanted > 0
          then int (length (filter (\<lambda>usage. usage \<in> set wanted) (c_usedIn c))) * 3
          else 0)"

definition calculateRelevanceScore :: "ComponentIndex \<Rightarrow> SearchQuery \<Rightarrow> int" where
  "calculateRelevanceScore c q =
     max 0 (textScore c q + tagScore c q + typeScore c q + hasPropsScore c q
            + sideEffectsScore c q + usedInScore c q)"

subsection \<open>\<open>findMatches\<close>\<close>

text \<open>One pass of the loop over the three fields: the match record, if the text occurs.\<close>

definition fieldMatch :: "string \<Rightarrow> string \<Rightarrow> string \<Rightarrow> Match list" where
  "fieldMatch fname fcontent searchText =
     (let content = toLowerCase fcontent;
          index = indexOf content searchText
      in if index \<noteq> - 1
         then (let start = max 0 (index - 50);
                   end = min (int (length content)) (index + int (length searchText) + 50)
               in [\<lparr> field = fname,
                      snippet = substring fcontent (nat start) (nat end),
                      highlightStart = index - start,
                      highlightEnd = index - start + int (length searchText) \<rparr>])
         else [])"

definition findMatches :: "ComponentIndex \<Rightarrow> SearchQuery \<Rightarrow> Match list" where
  "findMatches c q =
     (if \<not> truthyStr (q_text q) then []
      else
        (let searchText = toLowerCase (the (q_text q))
         in fieldMatch ''name'' (c_name c) searchText
          @ fieldMatch ''description'' (c_description c) searchText
          @ fieldMatch ''sourceCode'' (c_sourceCode c) searchText))"

subsection \<open>\<open>searchComponents\<close>\<close>

text \<open>
  \<open>Array.prototype.sort\<close> with a comparator is a stable sort (ECMAScript 2019 and
  later; the project runs on Node 18 or newer): an element goes before the first
  element that the comparator does not put in front of it, and elements that compare
  equal keep their order. For a comparator that is a total preorder, as the one on scores
  is, every stable sort returns the same array; insertion sort is the model.
\<close>

fun insortCmp :: "('a \<Rightarrow> 'a \<Rightarrow> int) \<Rightarrow> 'a \<Rightarrow> 'a list \<Rightarrow> 'a list" where
  "insortCmp cmp x [] = [x]"
| "insortCmp cmp x (y # ys) =
     (if cmp x y \<le> 0 then x # y # ys else y # insortCmp cmp x ys)"

definition arraySort :: "('a \<Rightarrow> 'a \<Rightarrow> int) \<Rightarrow> 'a list \<Rightarrow> 'a list" where
  "arraySort cmp xs = foldr (insortCmp cmp) xs []"

text \<open>The loop that collects the results, in the order of \<open>index.components\<close>.\<close>

fun collectResults :: "ComponentIndex list \<Rightarrow> SearchQuery \<Rightarrow> SearchResult list" where
  "collectResults [] q = []"
| "collectResults (c # cs) q =
     (let score = calculateRelevanceScore c q
      in if score > 0
         then \<lparr> component = c, relevanceScore = score, matches = findMatches c q \<rparr>
              # collectResults cs q
         else collectResults cs q)"

definition byScoreDesc :: "SearchResult \<Rightarrow> SearchResult \<Rightarrow> int" where
  "byScoreDesc a b = relevanceScore b - relevanceScore a"

definition searchComponents :: "ProjectIndex \<Rightarrow> SearchQuery \<Rightarrow> SearchResult list" where
  "searchComponents idx q = arraySort byScoreDesc (collectResults (components idx) q)"

subsection \<open>\<open>levenshteinDistance\<close> and \<open>calculateStringSimilarity\<close>\<close>

text \<open>
  The matrix is an array of rows. It starts with the rows \<open>[i]\<close> for
  \<open>i = 0, \<dots>, str2.length\<close>, and row 0 replaced by \<open>[0, \<dots>, str1.length]\<close>.
\<close>

definition initMatrix :: "string \<Rightarrow> string \<Rightarrow> nat list list" where
  "initMatrix str1 str2 =
     (map (\<lambda>i. [i]) [0 ..< length str2 + 1]) [0 := [0 ..< length str1 + 1]]"

text \<open>
  The assignment \<open>matrix[i][j] = v\<close>. Writing at the end of a JavaScript array
  appends; the loops write row \<open>i\<close> at \<open>j = 1, 2, \<dots>\<close> in this order, starting from
  the row \<open>[i]\<close> of length 1, so \<open>j\<close> is never beyond the end.
\<close>

definition setCell :: "nat list list \<Rightarrow> nat \<Rightarrow> nat \<Rightarrow> nat \<Rightarrow> nat list list" where
  "setCell m i j v =
     m[i := (if j < length (m ! i) then (m ! i)[j := v] else (m ! i) @ [v])]"

text \<open>The right-hand side of the assignment in the body of the inner loop.\<close>

definition cellValue :: "string \<Rightarrow> string \<Rightarrow> nat list list \<Rightarrow> nat \<Rightarrow> nat \<Rightarrow> nat" where
  "cellValue str1 str2 m i j =
     (if str2 ! (i - 1) = str1 ! (j - 1) then m ! (i - 1) ! (j - 1)
      else min (m ! (i - 1) ! (j - 1) + 1)
               (min (m ! i ! (j - 1) + 1) (m ! (i - 1) ! j + 1)))"

text \<open>The loops \<open>for (j = 1; j <= str1.length; j++)\<close> and \<open>for (i = 1; i <= str2.length; i++)\<close>.\<close>

function innerLoop :: "string \<Rightarrow> string \<Rightarrow> nat \<Rightarrow> nat \<Rightarrow> nat list list \<Rightarrow> nat list list" where
  "innerLoop str1 str2 i j m =
     (if j \<le> length str1
      then innerLoop str1 str2 i (j + 1) (setCell m i j (cellValue str1 str2 m i j))
      else m)"
  by pat_completeness auto
termination
  by (relation "measure (\<lambda>(str1, str2, i, j, m). length str1 + 1 - j)") auto

function outerLoop :: "string \<Rightarrow> string \<Rightarrow> nat \<Rightarrow> nat list list \<Rightarrow> nat list list" where
  "outerLoop str1 str2 i m =
     (if i \<le> length str2
      then outerLoop str1 str2 (i + 1) (innerLoop str1 str2 i 1 m)
      else m)"
  by pat_completeness auto
termination
  by (relation "measure (\<lambda>(str1, str2, i, m). length str2 + 1 - i)") auto

definition levenshteinDistance :: "string \<Rightarrow> string \<Rightarrow> nat" where
  "levenshteinDistance str1 str2 =
     outerLoop str1 str2 1 (initMatrix str1 str2) ! length str2 ! length str1"

definition calculateStringSimilarity :: "string \<Rightarrow> string \<Rightarrow> rat" where
  "calculateStringSimilarity str1 str2 =
     (let longer = (if length str1 > length str2 then str1 else str2);
          shorter = (if length str1 > length str2 then str2 else str1)
      in if length longer = 0 then 1
         else (let distance = levenshteinDistance longer shorter
               in (of_nat (length longer) - of_nat distance) / of_nat (length longer)))"

subsection \<open>\<open>calculateSimilarityScore\<close>\<close>

text \<open>
  Similarity scores are JavaScript numbers with fractional values; the model computes them
  as rationals, so \<open>0.2\<close> is \<open>2 / 10\<close>. The size of \<open>new Set([...xs, ...ys])\<close> is the
  number of distinct elements, \<open>length (remdups (xs @ ys))\<close>. \<open>computedStyles\<close> is the list
  of the object's entries, \<open>Object.keys\<close> their first components, and \<open>styles[key]\<close>
  the lookup \<open>map_of styles key\<close>, where \<open>None\<close> is \<open>undefined\<close>.
\<close>

datatype SimilarityType = Visual | Semantic | Usage

definition calculateSemanticSimilarity :: "ComponentIndex \<Rightarrow> ComponentIndex \<Rightarrow> rat" where
  "calculateSemanticSimilarity comp1 comp2 =
     (let commonTags = filter (\<lambda>tag. tag \<in> set (c_tags comp2)) (c_tags comp1);
          score1 = of_nat (length commonTags) * (2 / 10);
          commonPropTypes =
            filter (\<lambda>t. list_ex (\<lambda>p. prop_type p = t) (c_props comp2))
                   (map prop_type (c_props comp1));
          score2 = score1 + of_nat (length commonPropTypes) * (15 / 100);
          commonImports = filter (\<lambda>imp. imp \<in> set (c_imports comp2)) (c_imports comp1);
          score3 = score2 + of_nat (length commonImports) * (1 / 10);
          nameSimilarity = calculateStringSimilarity (c_name comp1) (c_name comp2);
          score4 = score3 + nameSimilarity * (3 / 10)
      in min 1 score4)"

definition calculateUsageSimilarity :: "ComponentIndex \<Rightarrow> ComponentIndex \<Rightarrow> rat" where
  "calculateUsageSimilarity comp1 comp2 =
     (let commonUsageContexts =
            filter (\<lambda>context. context \<in> set (c_usedIn comp2)) (c_usedIn comp1);
          totalContexts = length (remdups (c_usedIn comp1 @ c_usedIn comp2))
      in if totalContexts = 0 then 0
         else of_nat (length commonUsageContexts) / of_nat totalContexts)"

definition calculateVisualSimilarity :: "ComponentIndex \<Rightarrow> ComponentIndex \<Rightarrow> rat" where
  "calculateVisualSimilarity comp1 comp2 =
     (let styles1 = st_computedStyles (c_styles comp1);
          styles2 = st_computedStyles (c_styles comp2);
          styleKeys = remdups (map fst styles1 @ map fst styles2);
          similarStyles = length (filter (\<lambda>key. map_of styles1 key = map_of styles2 key) styleKeys)
      in if length styleKeys > 0
         then of_nat similarStyles / of_nat (length styleKeys)
         else 0)"

fun calculateSimilarityScore ::
  "ComponentIndex \<Rightarrow> ComponentIndex \<Rightarrow> SimilarityType \<Rightarrow> rat" where
  "calculateSimilarityScore component1 component2 Semantic =
     calculateSemanticSimilarity component1 component2"
| "calculateSimilarityScore component1 component2 Usage =
     calculateUsageSimilarity component1 component2"
| "calculateSimilarityScore component1 component2 Visual =
     calculateVisualSimilarity component1 component2"

subsection \<open>The Levenshtein distance, as the specification names it\<close>

text \<open>
  For the comparison with \<open>levenshteinDistance\<close>, and not taken from the code: the
  Levenshtein distance by its usual recursion on the heads of the two strings, and the
  relation \<open>edits n xs ys\<close>, which says that \<open>n\<close> single-character deletions,
  insertions and substitutions turn \<open>xs\<close> into \<open>ys\<close>.
\<close>

fun editDistance :: "'a list \<Rightarrow> 'a list \<Rightarrow> nat" where
  "editDistance [] ys = length ys"
| "editDistance (x # xs) [] = length (x # xs)"
| "editDistance (x # xs) (y # ys) =
     (if x = y then editDistance xs ys
      else 1 + min (editDistance xs ys)
                   (min (editDistance xs (y # ys)) (editDistance (x # xs) ys)))"

inductive edits :: "nat \<Rightarrow> 'a list \<Rightarrow> 'a list \<Rightarrow> bool" where
  e_nil: "edits 0 [] []"
| e_delete: "edits n xs ys \<Longrightarrow> edits (Suc n) (x # xs) ys"
| e_insert: "edits n xs ys \<Longrightarrow> edits (Suc n) xs (y # ys)"
| e_keep: "edits n xs ys \<Longrightarrow> edits n (x # xs) (x # ys)"
| e_substitute: "edits n xs ys \<Longrightarrow> edits (Suc n) (x # xs) (y # ys)"

code_pred edits .


text \<open>
  The invariant of the matrix loops: \<open>prefixDist a b i j\<close> is the distance of the first
  \<open>j\<close> characters of \<open>a\<close> and the first \<open>i\<close> characters of \<open>b\<close>, and
  \<open>matrixAt a b i j\<close> is the matrix when rows \<open>0, \<dots>, i - 1\<close> are complete, row
  \<open>i\<close> is filled up to column \<open>j - 1\<close>, and the rows below are as they started.
\<close>

definition prefixDist :: "string \<Rightarrow> string \<Rightarrow> nat \<Rightarrow> nat \<Rightarrow> nat" where
  "prefixDist a b i j = editDistance (rev (take j a)) (rev (take i b))"

definition matrixAt :: "string \<Rightarrow> string \<Rightarrow> nat \<Rightarrow> nat \<Rightarrow> nat list list" where
  "matrixAt a b i j =
     map (\<lambda>i'. if i' < i then map (prefixDist a b i') [0 ..< length a + 1]
               else if i' = i then map (prefixDist a b i') [0 ..< j]
               else [i'])
         [0 ..< length b + 1]"


subsection \<open>\<open>getComponentUsageGraph\<close>\<close>

text \<open>
  Arrays are objects, and the claim about this function depends on which array a
  reference points to. \<open>usageGraph.set(component.id, component.usedIn)\<close> stores the
  component's own array in the map, not a copy, so the map holds references:
  \<open>UsedInOf k\<close> is the \<open>usedIn\<close> array of the component at position \<open>k\<close> of
  \<open>index.components\<close>, and \<open>Fresh n\<close> is the \<open>n\<close>-th array that the function itself
  creates with \<open>[]\<close>. In a loaded index every component has a \<open>usedIn\<close> array of its
  own (\<open>JSON.parse\<close> creates one array for each property, and the indexer one for each
  component), so the arrays of different positions are different objects.

  The state of a run is the index object, the arrays created so far, and the map.
\<close>

datatype arrayRef = UsedInOf nat | Fresh nat

record UsageState =
  us_index :: ProjectIndex
  us_fresh :: "string list list"
  us_graph :: "string \<rightharpoonup> arrayRef"

text \<open>Reading an array through a reference, and \<open>array.push(v)\<close> through a reference.\<close>

fun readArray :: "UsageState \<Rightarrow> arrayRef \<Rightarrow> string list" where
  "readArray st (UsedInOf k) = c_usedIn (components (us_index st) ! k)"
| "readArray st (Fresh n) = us_fresh st ! n"

fun pushArray :: "UsageState \<Rightarrow> arrayRef \<Rightarrow> string \<Rightarrow> UsageState" where
  "pushArray st (UsedInOf k) v =
     st \<lparr> us_index := (us_index st)
            \<lparr> components := (components (us_index st))
                 [k := (components (us_index st) ! k)
                         \<lparr> c_usedIn := c_usedIn (components (us_index st) ! k) @ [v] \<rparr>] \<rparr> \<rparr>"
| "pushArray st (Fresh n) v = st \<lparr> us_fresh := (us_fresh st) [n := us_fresh st ! n @ [v]] \<rparr>"

text \<open>
  The first loop: \<open>usageGraph.set(component.id, component.usedIn)\<close> for the components
  in order; \<open>k\<close> is the position of the next component.
\<close>

fun seedLoop :: "nat \<Rightarrow> ComponentIndex list \<Rightarrow> (string \<rightharpoonup> arrayRef) \<Rightarrow> (string \<rightharpoonup> arrayRef)" where
  "seedLoop k [] graph = graph"
| "seedLoop k (c # cs) graph = seedLoop (Suc k) cs (graph (c_id c \<mapsto> UsedInOf k))"

text \<open>
  The body of the inner loop of the second part, for the page \<open>pageId\<close> and one of its
  component names. \<open>usageGraph.get(component.id) || []\<close> is the stored array, or a new
  empty array when the identifier has no entry.
\<close>

definition recordUsage :: "string \<Rightarrow> string \<Rightarrow> UsageState \<Rightarrow> UsageState" where
  "recordUsage pageId componentName st =
     (case find (\<lambda>c. c_name c = componentName) (components (us_index st)) of
        None \<Rightarrow> st
      | Some found \<Rightarrow>
          (let st1 = (case us_graph st (c_id found) of
                        Some r \<Rightarrow> st
                      | None \<Rightarrow> st \<lparr> us_fresh := us_fresh st @ [[]] \<rparr>);
               currentUsage = (case us_graph st (c_id found) of
                                 Some r \<Rightarrow> r
                               | None \<Rightarrow> Fresh (length (us_fresh st)))
           in if pageId \<in> set (readArray st1 currentUsage) then st1
              else (pushArray st1 currentUsage pageId)
                     \<lparr> us_graph := (us_graph st1) (c_id found \<mapsto> currentUsage) \<rparr>))"

fun namesLoop :: "string \<Rightarrow> string list \<Rightarrow> UsageState \<Rightarrow> UsageState" where
  "namesLoop pageId [] st = st"
| "namesLoop pageId (componentName # rest) st =
     namesLoop pageId rest (recordUsage pageId componentName st)"

fun pagesLoop :: "PageIndex list \<Rightarrow> UsageState \<Rightarrow> UsageState" where
  "pagesLoop [] st = st"
| "pagesLoop (page # rest) st = pagesLoop rest (namesLoop (p_id page) (p_components page) st)"

text \<open>
  The call returns the map; the arrays in it are read when the call returns. The second
  component of the result is the index object as the call leaves it.
\<close>

definition getComponentUsageGraph ::
  "ProjectIndex \<Rightarrow> (string \<rightharpoonup> string list) \<times> ProjectIndex" where
  "getComponentUsageGraph idx =
     (let st0 = \<lparr> us_index = idx, us_fresh = [],
                  us_graph = seedLoop 0 (components idx) Map.empty \<rparr>;
          st = pagesLoop (pages idx) st0
      in (\<lambda>cid. map_option (readArray st) (us_graph st cid), us_index st))"

text \<open>
  For the proofs about the loops: the position of the first component with a given name;
  the components with their \<open>usedIn\<close> arrays replaced by the given ones; the effect of
  one pass of the inner loop on the list of all \<open>usedIn\<close> arrays; and the array that
  results from pushing each of the given identifiers unless it is present already.
\<close>

fun firstWithName :: "string \<Rightarrow> ComponentIndex list \<Rightarrow> nat option" where
  "firstWithName n [] = None"
| "firstWithName n (c # cs) =
     (if c_name c = n then Some 0 else map_option Suc (firstWithName n cs))"

definition withUsedIn :: "ComponentIndex list \<Rightarrow> string list list \<Rightarrow> ComponentIndex list" where
  "withUsedIn comps arrays = map (\<lambda>(c, u). c \<lparr> c_usedIn := u \<rparr>) (zip comps arrays)"

definition pushUnlessPresent :: "string \<Rightarrow> string list \<Rightarrow> string list" where
  "pushUnlessPresent pageId arr = (if pageId \<in> set arr then arr else arr @ [pageId])"

definition usageStep ::
  "ComponentIndex list \<Rightarrow> string \<times> string \<Rightarrow> string list list \<Rightarrow> string list list" where
  "usageStep comps pn arrays =
     (case firstWithName (snd pn) comps of
        None \<Rightarrow> arrays
      | Some k \<Rightarrow> arrays [k := pushUnlessPresent (fst pn) (arrays ! k)])"

definition pageReferences :: "PageIndex list \<Rightarrow> (string \<times> string) list" where
  "pageReferences pgs = concat (map (\<lambda>p. map (\<lambda>n. (p_id p, n)) (p_components p)) pgs)"

text \<open>
  The state of the run in which the \<open>usedIn\<close> arrays of the index hold \<open>arrays\<close>, no
  array has been created, and the map is as the first loop leaves it.
\<close>

definition usageState :: "ProjectIndex \<Rightarrow> string list list \<Rightarrow> UsageState" where
  "usageState idx arrays =
     \<lparr> us_index = idx \<lparr> components := withUsedIn (components idx) arrays \<rparr>,
       us_fresh = [],
       us_graph = seedLoop 0 (components idx) Map.empty \<rparr>"


subsection \<open>Queries used below\<close>

definition emptyQuery :: SearchQuery where
  "emptyQuery = \<lparr> q_text = None, q_tags = None, q_framework = None, q_componentType = None,
                   q_hasProps = None, q_hasSideEffects = None, q_usedIn = None \<rparr>"

text \<open>The query \<open>{text: t}\<close>.\<close>

definition textQuery :: "string \<Rightarrow> SearchQuery" where
  "textQuery t = emptyQuery \<lparr> q_text := Some t \<rparr>"

text \<open>The tags a query asks for: none when \<open>query.tags\<close> is \<open>undefined\<close>.\<close>

definition queryTags :: "SearchQuery \<Rightarrow> string list" where
  "queryTags q = (case q_tags q of None \<Rightarrow> [] | Some tags \<Rightarrow> tags)"


section \<open>The indexer: records of analysed components\<close>

text \<open>\<open>ProjectIndexer.generateTags\<close>: the keyword scan of the source text.\<close>

definition generateTags :: "string \<Rightarrow> string list" where
  "generateTags sourceCode =
     (if includesStr sourceCode ''useState'' then [''stateful''] else [])
   @ (if includesStr sourceCode ''useEffect'' then [''side-effects''] else [])
   @ (if includesStr sourceCode ''props.children'' then [''container''] else [])
   @ (if includesStr sourceCode ''onClick'' \<or> includesStr sourceCode ''onPress''
      then [''interactive''] else [])
   @ (if includesStr sourceCode ''styled'' \<or> includesStr sourceCode ''className''
      then [''styled''] else [])"

text \<open>
  The object literal that \<open>ProjectIndexer.analyzeComponent\<close> returns. What the function
  reads from the file system and extracts with regular expressions (identifier, name,
  relative path, source text, props, imports, description, modification time) is a
  parameter here; the tags are computed from the source text as the code does.
\<close>

definition analyzedComponent ::
  "string \<Rightarrow> string \<Rightarrow> string \<Rightarrow> string \<Rightarrow> PropDefinition list \<Rightarrow> string list \<Rightarrow> string
     \<Rightarrow> int \<Rightarrow> ComponentIndex" where
  "analyzedComponent ident componentName relPath sourceCode props imports descr mtime =
     \<lparr> c_id = ident, c_name = componentName, c_filePath = relPath, c_sourceCode = sourceCode,
       c_screenshots = \<lparr> s_desktop = None, s_tablet = None, s_mobile = None \<rparr>,
       c_bounds = \<lparr> b_desktop = None, b_tablet = None, b_mobile = None \<rparr>,
       c_props = props, c_imports = imports, c_dependencies = [],
       c_styles = \<lparr> st_css = [], st_computedStyles = [] \<rparr>,
       c_usedIn = [], c_children = [], c_description = descr,
       c_tags = generateTags sourceCode, c_lastModified = DateObj mtime \<rparr>"

text \<open>A prop as \<open>extractProps\<close> builds it: name, type and \<open>required\<close> only.\<close>

definition extractedProp :: "string \<Rightarrow> string \<Rightarrow> bool \<Rightarrow> PropDefinition" where
  "extractedProp n t r = \<lparr> prop_name = n, prop_type = t, prop_required = r,
                             prop_defaultValue = None, prop_description = None \<rparr>"

text \<open>The index a run over the given components and pages holds in memory.\<close>

definition indexOfProject ::
  "string \<Rightarrow> Framework \<Rightarrow> int \<Rightarrow> ComponentIndex list \<Rightarrow> PageIndex list \<Rightarrow> ProjectIndex" where
  "indexOfProject projectPath fw now comps pgs =
     \<lparr> metadata = \<lparr> m_projectPath = projectPath, m_framework = fw, m_lastIndexed = DateObj now,
                      m_componentsCount = int (length comps), m_pagesCount = int (length pgs) \<rparr>,
       components = comps, pages = pgs, embeddings = None \<rparr>"


section \<open>The visual-code correlator\<close>

subsection \<open>Numbers and text\<close>

text \<open>
  \<open>String(n)\<close> for an integer \<open>n\<close> (below \<open>10\<^sup>2\<^sup>1\<close> in absolute value, where
  JavaScript changes to exponent notation): the decimal digits, with a minus sign for a
  negative number.
\<close>

fun natToString :: "nat \<Rightarrow> string" where
  "natToString n =
     (if n < 10 then [''0123456789'' ! n]
      else natToString (n div 10) @ [''0123456789'' ! (n mod 10)])"

definition numberToString :: "int \<Rightarrow> string" where
  "numberToString n = (if n < 0 then CHR ''-'' # natToString (nat (- n)) else natToString (nat n))"

text \<open>
  \<open>parseInt(s)\<close> without a radix: leading white space is skipped, then comes an optional
  sign, then an optional \<open>0x\<close> or \<open>0X\<close> that selects radix 16, then the longest run of
  digits of the radix; with no digit the result is \<open>NaN\<close>, which is \<open>None\<close> here.
  \<open>undefined\<close> is first converted to the string \<open>undefined\<close>. The result is exact for
  values up to \<open>2\<^sup>5\<^sup>3\<close>.
\<close>

definition isWhiteSpace :: "char \<Rightarrow> bool" where
  "isWhiteSpace c = ((of_char c :: nat) \<in> {9, 10, 11, 12, 13, 32, 160})"

definition digitValue :: "char \<Rightarrow> nat" where
  "digitValue c =
     (let n = (of_char c :: nat)
      in if 48 \<le> n \<and> n \<le> 57 then n - 48
         else if 97 \<le> n \<and> n \<le> 122 then n - 87
         else if 65 \<le> n \<and> n \<le> 90 then n - 55
         else 36)"

definition parseInt :: "string option \<Rightarrow> int option" where
  "parseInt input =
     (let inputString = (case input of None \<Rightarrow> ''undefined'' | Some s \<Rightarrow> s);
          s0 = dropWhile isWhiteSpace inputString;
          sign = (if take 1 s0 = ''-'' then - 1 else 1 :: int);
          s1 = (if take 1 s0 = ''+'' \<or> take 1 s0 = ''-'' then drop 1 s0 else s0);
          hex = (take 2 s1 = ''0x'' \<or> take 2 s1 = ''0X'');
          R = (if hex then 16 else 10 :: nat);
          s2 = (if hex then drop 2 s1 else s1);
          Z = takeWhile (\<lambda>c. digitValue c < R) s2
      in if Z = [] then None
         else Some (sign * int (foldl (\<lambda>acc c. acc * R + digitValue c) 0 Z)))"

text \<open>\<open>s.split(sep)\<close> for a separator of one character, and \<open>lines.join(sep)\<close>.\<close>

fun splitOn :: "char \<Rightarrow> string \<Rightarrow> string list" where
  "splitOn sep [] = [[]]"
| "splitOn sep (c # s) =
     (let rest = splitOn sep s
      in if c = sep then [] # rest else (c # hd rest) # tl rest)"

fun joinWith :: "char \<Rightarrow> string list \<Rightarrow> string" where
  "joinWith sep [] = []"
| "joinWith sep [l] = l"
| "joinWith sep (l # ls) = l @ sep # joinWith sep ls"

definition trim :: "string \<Rightarrow> string" where
  "trim s = rev (dropWhile isWhiteSpace (rev (dropWhile isWhiteSpace s)))"

text \<open>\<open>lines.findIndex(p)\<close>: the first position whose element satisfies \<open>p\<close>, or \<open>-1\<close>.\<close>

fun findIndexFrom :: "nat \<Rightarrow> ('a \<Rightarrow> bool) \<Rightarrow> 'a list \<Rightarrow> int" where
  "findIndexFrom i p [] = - 1"
| "findIndexFrom i p (x # xs) = (if p x then int i else findIndexFrom (Suc i) p xs)"

subsection \<open>Elements and correlations\<close>

text \<open>
  The element records that \<open>extractTargetElements\<close> builds in the page. An attribute that
  is \<open>null\<close>, and a style property that is missing, is \<open>None\<close>. Bounds are the rounded
  integers of \<open>Math.round\<close>.
\<close>

record Attributes =
  a_role :: "string option"
  a_ariaLabel :: "string option"
  a_type :: "string option"
  a_placeholder :: "string option"

record ElementStyles =
  es_position :: "string option"
  es_display :: "string option"
  es_backgroundColor :: "string option"
  es_color :: "string option"
  es_fontSize :: "string option"
  es_fontWeight :: "string option"
  es_padding :: "string option"
  es_margin :: "string option"
  es_border :: "string option"
  es_borderRadius :: "string option"

record VisualElement =
  ve_selector :: string
  ve_text :: string
  ve_bounds :: BoundingBox
  ve_tagName :: string
  ve_className :: string
  ve_id :: string
  ve_attributes :: Attributes
  ve_styles :: ElementStyles
  ve_elementIndex :: int

text \<open>
  Confidence is a JavaScript number with fractional values; the model uses rationals.
  The scores it is computed from are integers, so \<open>score / 20\<close> is the exact quotient
  here and the nearest double in the code; the guards of the strategies compare the same
  quantities in both, up to that rounding.
\<close>

record VisualCodeCorrelation =
  visualElement :: VisualElement
  sourceComponent :: "ComponentIndex option"
  confidence :: rat
  matchReason :: string
  codeSnippet :: "string option"
  responsiveIssues :: "string list"
  recommendations :: "string list"

subsection \<open>\<open>analyzeResponsiveIssues\<close> and \<open>generateRecommendations\<close>\<close>

definition analyzeResponsiveIssues :: "VisualElement \<Rightarrow> string list" where
  "analyzeResponsiveIssues element =
     (let width = bb_width (ve_bounds element);
          height = bb_height (ve_bounds element);
          touch = (if width < 44 \<or> height < 44
                   then [''Touch target too small: '' @ numberToString width @ ''x''
                         @ numberToString height @ ''px (minimum 44x44px)'']
                   else []);
          font = (case parseInt (es_fontSize (ve_styles element)) of
                    None \<Rightarrow> []
                  | Some fontSize \<Rightarrow>
                      if fontSize \<noteq> 0 \<and> fontSize < 14
                      then [''Font size too small: '' @ numberToString fontSize
                            @ ''px (minimum 14px for mobile)'']
                      else []);
          contrast = (if truthyStr (es_color (ve_styles element))
                         \<and> truthyStr (es_backgroundColor (ve_styles element))
                      then (if es_color (ve_styles element)
                               = es_backgroundColor (ve_styles element)
                            then [''Potential color contrast issue''] else [])
                      else [])
      in touch @ font @ contrast)"

definition generateRecommendations ::
  "VisualElement \<Rightarrow> ComponentIndex option \<Rightarrow> string list" where
  "generateRecommendations element matched =
     (if bb_width (ve_bounds element) < 44 \<or> bb_height (ve_bounds element) < 44
      then [''Increase padding or min-height/min-width to meet 44px touch target minimum'']
      else [])
   @ (if \<not> truthyStr (a_ariaLabel (ve_attributes element)) \<and> ve_text element = []
      then [''Add aria-label for better accessibility''] else [])
   @ (case matched of
        None \<Rightarrow> []
      | Some c \<Rightarrow>
          if length (c_props c) > 8
          then [''Consider breaking down this component - it has many props and might be too complex'']
          else [])
   @ (if ve_tagName element = ''div'' \<and> a_role (ve_attributes element) = Some ''button''
      then [''Consider using a semantic <button> element instead of div with button role'']
      else [])"

subsection \<open>\<open>findComponentMatch\<close>\<close>

definition buildTypeQuery :: "VisualElement \<Rightarrow> SearchQuery" where
  "buildTypeQuery element =
     (if ve_tagName element = ''button''
         \<or> a_role (ve_attributes element) = Some ''button''
      then emptyQuery \<lparr> q_text := Some ''button'', q_tags := Some [''interactive''] \<rparr>
      else if ve_tagName element \<in> set [''input'', ''textarea'', ''select'']
      then emptyQuery \<lparr> q_text := Some ''input'', q_tags := Some [''interactive''] \<rparr>
      else if includesStr (ve_className element) ''card''
      then emptyQuery \<lparr> q_text := Some ''card'', q_tags := Some [''container''] \<rparr>
      else if ve_tagName element = ''nav''
      then emptyQuery \<lparr> q_text := Some ''navigation'' \<rparr>
      else emptyQuery)"

definition extractRelevantCodeSnippet :: "ComponentIndex \<Rightarrow> VisualElement \<Rightarrow> string" where
  "extractRelevantCodeSnippet matched element =
     (let sourceLines = splitOn (CHR 0x0A) (c_sourceCode matched);
          returnIndex = findIndexFrom 0 (\<lambda>line. includesStr (trim line) ''return'') sourceLines
      in if returnIndex \<noteq> - 1
         then (let start = max 0 (returnIndex - 2);
                   end = min (int (length sourceLines)) (returnIndex + 15)
               in joinWith (CHR 0x0A)
                    (take (nat end - nat start) (drop (nat start) sourceLines)))
         else joinWith (CHR 0x0A) (take 20 sourceLines))"

text \<open>The three local variables of \<open>findComponentMatch\<close>.\<close>

record MatchState =
  bestMatch :: "ComponentIndex option"
  conf :: rat
  reason :: string

text \<open>The query \<open>{text: t, componentType: 'any'}\<close> of strategies 1 and 3.\<close>

definition anyTextQuery :: "string \<Rightarrow> SearchQuery" where
  "anyTextQuery t = emptyQuery \<lparr> q_text := Some t, q_componentType := Some Any \<rparr>"

text \<open>Strategy 1: search by the element's text.\<close>

definition textStrategy :: "ProjectIndex \<Rightarrow> VisualElement \<Rightarrow> MatchState \<Rightarrow> MatchState" where
  "textStrategy idx element st =
     (if ve_text element \<noteq> [] \<and> length (ve_text element) > 2
      then (case searchComponents idx (anyTextQuery (ve_text element)) of
              [] \<Rightarrow> st
            | first # _ \<Rightarrow>
                \<lparr> bestMatch = Some (component first),
                  conf = min (of_int (relevanceScore first) / 20) (8 / 10),
                  reason = ''Matched by text content: '' @ [CHR 0x22]
                           @ ve_text element @ [CHR 0x22] \<rparr>)
      else st)"

text \<open>Strategy 2: search by the element's type and attributes.\<close>

definition typeStrategy :: "ProjectIndex \<Rightarrow> VisualElement \<Rightarrow> MatchState \<Rightarrow> MatchState" where
  "typeStrategy idx element st =
     (if bestMatch st = None \<or> conf st < 5 / 10
      then (let typeQuery = buildTypeQuery element
            in case searchComponents idx typeQuery of
                 [] \<Rightarrow> st
               | first # _ \<Rightarrow>
                   if relevanceScore first > 5
                   then (if bestMatch st = None \<or> of_int (relevanceScore first) > conf st * 20
                         then \<lparr> bestMatch = Some (component first),
                                conf = min (of_int (relevanceScore first) / 15) (9 / 10),
                                reason = ''Matched by element type and props: ''
                                  @ (case q_text typeQuery of
                                       None \<Rightarrow> ''undefined'' | Some t \<Rightarrow> t) \<rparr>
                         else st)
                   else st)
      else st)"

text \<open>Strategy 3: the loop over the class names, and its guard.\<close>

fun classLoop :: "ProjectIndex \<Rightarrow> string list \<Rightarrow> MatchState \<Rightarrow> MatchState" where
  "classLoop idx [] st = st"
| "classLoop idx (className # classNames) st =
     classLoop idx classNames
       (case searchComponents idx (anyTextQuery className) of
          [] \<Rightarrow> st
        | first # _ \<Rightarrow>
            if relevanceScore first > 3
            then (if bestMatch st = None \<or> of_int (relevanceScore first) > conf st * 15
                  then \<lparr> bestMatch = Some (component first),
                         conf = min (of_int (relevanceScore first) / 12) (7 / 10),
                         reason = ''Matched by CSS class: '' @ [CHR 0x22] @ className
                                  @ [CHR 0x22] \<rparr>
                  else st)
            else st)"

definition classStrategy :: "ProjectIndex \<Rightarrow> VisualElement \<Rightarrow> MatchState \<Rightarrow> MatchState" where
  "classStrategy idx element st =
     (if (bestMatch st = None \<or> conf st < 6 / 10) \<and> ve_className element \<noteq> []
      then classLoop idx
             (filter (\<lambda>c. length c > 2) (splitOn (CHR '' '') (ve_className element))) st
      else st)"

text \<open>
  \<open>findComponentMatch\<close>. The search engine and the project index are set together, so
  the state of the correlator is the loaded index, or \<open>None\<close>.
\<close>

definition findComponentMatch ::
  "ProjectIndex option \<Rightarrow> VisualElement \<Rightarrow> VisualCodeCorrelation" where
  "findComponentMatch projectIndex element =
     (case projectIndex of
        None \<Rightarrow>
          \<lparr> visualElement = element, sourceComponent = None, confidence = 0,
            matchReason = ''No search engine available'', codeSnippet = None,
            responsiveIssues = [], recommendations = [] \<rparr>
      | Some idx \<Rightarrow>
          (let st0 = \<lparr> bestMatch = None, conf = 0, reason = [] \<rparr>;
               st1 = textStrategy idx element st0;
               st2 = typeStrategy idx element st1;
               st3 = classStrategy idx element st2;
               codeSnippet0 = (case bestMatch st3 of
                                 None \<Rightarrow> []
                               | Some c \<Rightarrow> extractRelevantCodeSnippet c element)
           in \<lparr> visualElement = element, sourceComponent = bestMatch st3,
                confidence = conf st3,
                matchReason = (if bestMatch st3 \<noteq> None then reason st3
                               else ''No matching component found''),
                codeSnippet = Some codeSnippet0,
                responsiveIssues = [], recommendations = [] \<rparr>))"

text \<open>The body of the loop of \<open>correlateElementsWithComponents\<close>, and the loop.\<close>

definition correlateElement ::
  "ProjectIndex option \<Rightarrow> VisualElement \<Rightarrow> VisualCodeCorrelation" where
  "correlateElement projectIndex element =
     (let correlation0 =
            \<lparr> visualElement = element, sourceComponent = None, confidence = 0,
              matchReason = ''No project index available'', codeSnippet = None,
              responsiveIssues = [], recommendations = [] \<rparr>;
          correlation = (if projectIndex \<noteq> None then findComponentMatch projectIndex element
                         else correlation0)
      in correlation \<lparr> responsiveIssues := analyzeResponsiveIssues element,
                       recommendations :=
                         generateRecommendations element (sourceComponent correlation) \<rparr>)"

definition correlateElementsWithComponents ::
  "ProjectIndex option \<Rightarrow> VisualElement list \<Rightarrow> VisualCodeCorrelation list" where
  "correlateElementsWithComponents projectIndex visualElements =
     map (correlateElement projectIndex) visualElements"


section \<open>Persistence of the index\<close>

subsection \<open>JavaScript values and JSON documents\<close>

text \<open>
  \<open>saveIndex\<close> writes \<open>JSON.stringify(this.index, null, 2)\<close> and \<open>loadIndex\<close> returns
  \<open>JSON.parse\<close> of the file's text, as it is and without any check of its shape. Both
  built-ins work on any value, so the model has the values of JavaScript that an index
  is made of (\<open>jsval\<close>), the JSON documents (\<open>json\<close>), and the two built-ins between
  them. Numbers are the integers (the numbers of an index are counts and rounded pixel
  values; \<open>NaN\<close> and the infinities are not modelled). The properties of an object are
  the list of its entries in property order. A file holds a text; the model keeps the
  document that the text denotes, which is what \<open>JSON.parse\<close> builds from the text that
  \<open>JSON.stringify\<close> printed, or the fact that the text is not JSON.
\<close>

datatype jsval =
    VUndefined
  | VNull
  | VBool bool
  | VNum int
  | VStr string
  | VDate int
  | VArr "jsval list"
  | VObj "(string \<times> jsval) list"

datatype json =
    JNull
  | JBool bool
  | JNumber int
  | JString string
  | JArray "json list"
  | JObject "(string \<times> json) list"

text \<open>
  \<open>Date.prototype.toISOString\<close> for a time value \<open>t\<close> in milliseconds since the epoch:
  \<open>YYYY-MM-DDTHH:mm:ss.sssZ\<close> in the proleptic Gregorian calendar, with a sign and six
  digits for a year outside 0..9999.
\<close>

definition pad :: "nat \<Rightarrow> nat \<Rightarrow> string" where
  "pad w n = replicate (w - length (natToString n)) (CHR ''0'') @ natToString n"

definition civilFromDays :: "int \<Rightarrow> int \<times> int \<times> int" where
  "civilFromDays days =
     (let z = days + 719468;
          era = z div 146097;
          doe = z mod 146097;
          yoe = (doe - doe div 1460 + doe div 36524 - doe div 146096) div 365;
          doy = doe - (365 * yoe + yoe div 4 - yoe div 100);
          mp = (5 * doy + 2) div 153;
          d = doy - (153 * mp + 2) div 5 + 1;
          m = (if mp < 10 then mp + 3 else mp - 9);
          y = yoe + era * 400 + (if m \<le> 2 then 1 else 0)
      in (y, m, d))"

definition toISOString :: "int \<Rightarrow> string" where
  "toISOString t =
     (let days = t div 86400000;
          ms = t mod 86400000;
          (y, m, d) = civilFromDays days;
          year = (if 0 \<le> y \<and> y \<le> 9999 then pad 4 (nat y)
                  else (if y < 0 then ''-'' else ''+'') @ pad 6 (nat (abs y)))
      in year @ ''-'' @ pad 2 (nat m) @ ''-'' @ pad 2 (nat d)
         @ ''T'' @ pad 2 (nat (ms div 3600000))
         @ '':'' @ pad 2 (nat (ms div 60000 mod 60))
         @ '':'' @ pad 2 (nat (ms div 1000 mod 60))
         @ ''.'' @ pad 3 (nat (ms mod 1000)) @ ''Z'')"

text \<open>
  \<open>JSON.stringify\<close> on a value, as a document: \<open>None\<close> is the result \<open>undefined\<close>.
  A \<open>Date\<close> is replaced by the string of its \<open>toJSON\<close>, which is \<open>toISOString\<close>; an
  \<open>undefined\<close> element of an array becomes \<open>null\<close>; a property whose value is
  \<open>undefined\<close> is left out.
\<close>

fun stringify :: "jsval \<Rightarrow> json option"
  and stringifyElements :: "jsval list \<Rightarrow> json list"
  and stringifyProperties :: "(string \<times> jsval) list \<Rightarrow> (string \<times> json) list" where
  "stringify VUndefined = None"
| "stringify VNull = Some JNull"
| "stringify (VBool b) = Some (JBool b)"
| "stringify (VNum n) = Some (JNumber n)"
| "stringify (VStr s) = Some (JString s)"
| "stringify (VDate t) = Some (JString (toISOString t))"
| "stringify (VArr vs) = Some (JArray (stringifyElements vs))"
| "stringify (VObj kvs) = Some (JObject (stringifyProperties kvs))"
| "stringifyElements [] = []"
| "stringifyElements (v # vs) =
     (case stringify v of None \<Rightarrow> JNull | Some j \<Rightarrow> j) # stringifyElements vs"
| "stringifyProperties [] = []"
| "stringifyProperties (kv # kvs) =
     (case stringify (snd kv) of None \<Rightarrow> [] | Some j \<Rightarrow> [(fst kv, j)])
     @ stringifyProperties kvs"

text \<open>
  \<open>JSON.parse\<close> on a document. (A document that \<open>JSON.stringify\<close> wrote has no
  repeated key in an object.)
\<close>

fun parseValue :: "json \<Rightarrow> jsval"
  and parseElements :: "json list \<Rightarrow> jsval list"
  and parseProperties :: "(string \<times> json) list \<Rightarrow> (string \<times> jsval) list" where
  "parseValue JNull = VNull"
| "parseValue (JBool b) = VBool b"
| "parseValue (JNumber n) = VNum n"
| "parseValue (JString s) = VStr s"
| "parseValue (JArray js) = VArr (parseElements js)"
| "parseValue (JObject kjs) = VObj (parseProperties kjs)"
| "parseElements [] = []"
| "parseElements (j # js) = parseValue j # parseElements js"
| "parseProperties [] = []"
| "parseProperties (kj # kjs) = (fst kj, parseValue (snd kj)) # parseProperties kjs"

text \<open>Reading a property: \<open>undefined\<close> when the value has no such property.\<close>

fun getProp :: "string \<Rightarrow> jsval \<Rightarrow> jsval" where
  "getProp k (VObj kvs) = (case map_of kvs k of None \<Rightarrow> VUndefined | Some v \<Rightarrow> v)"
| "getProp k v = VUndefined"

text \<open>Reading an element of an array: \<open>undefined\<close> beyond its end.\<close>

fun getElement :: "nat \<Rightarrow> jsval \<Rightarrow> jsval" where
  "getElement i (VArr vs) = (if i < length vs then vs ! i else VUndefined)"
| "getElement i v = VUndefined"

subsection \<open>An index as a JavaScript value\<close>

text \<open>
  The object that a \<open>ProjectIndex\<close> is: one property for each field, in the order of
  the object literals of the indexer; an optional field that is absent is no property.
\<close>

fun valueOfTimestamp :: "timestamp \<Rightarrow> jsval" where
  "valueOfTimestamp (DateObj t) = VDate t"
| "valueOfTimestamp (DateString s) = VStr s"

fun optionalProp :: "string \<Rightarrow> ('a \<Rightarrow> jsval) \<Rightarrow> 'a option \<Rightarrow> (string \<times> jsval) list" where
  "optionalProp k f None = []"
| "optionalProp k f (Some x) = [(k, f x)]"

definition valueOfStrings :: "string list \<Rightarrow> jsval" where
  "valueOfStrings xs = VArr (map VStr xs)"

definition valueOfNumbers :: "int list \<Rightarrow> jsval" where
  "valueOfNumbers xs = VArr (map VNum xs)"

definition valueOfBoundingBox :: "BoundingBox \<Rightarrow> jsval" where
  "valueOfBoundingBox b =
     VObj [(''x'', VNum (bb_x b)), (''y'', VNum (bb_y b)),
           (''width'', VNum (bb_width b)), (''height'', VNum (bb_height b))]"

definition valueOfScreenshots :: "Screenshots \<Rightarrow> jsval" where
  "valueOfScreenshots s =
     VObj (optionalProp ''desktop'' VStr (s_desktop s)
           @ optionalProp ''tablet'' VStr (s_tablet s)
           @ optionalProp ''mobile'' VStr (s_mobile s))"

definition valueOfBounds :: "Bounds \<Rightarrow> jsval" where
  "valueOfBounds b =
     VObj (optionalProp ''desktop'' valueOfBoundingBox (b_desktop b)
           @ optionalProp ''tablet'' valueOfBoundingBox (b_tablet b)
           @ optionalProp ''mobile'' valueOfBoundingBox (b_mobile b))"

definition valueOfProp :: "PropDefinition \<Rightarrow> jsval" where
  "valueOfProp p =
     VObj ([(''name'', VStr (prop_name p)), (''type'', VStr (prop_type p)),
            (''required'', VBool (prop_required p))]
           @ optionalProp ''defaultValue'' VStr (prop_defaultValue p)
           @ optionalProp ''description'' VStr (prop_description p))"

definition valueOfStyles :: "Styles \<Rightarrow> jsval" where
  "valueOfStyles st =
     VObj [(''css'', VStr (st_css st)),
           (''computedStyles'', VObj (map (\<lambda>kv. (fst kv, VStr (snd kv))) (st_computedStyles st)))]"

definition valueOfComponent :: "ComponentIndex \<Rightarrow> jsval" where
  "valueOfComponent c =
     VObj [(''id'', VStr (c_id c)), (''name'', VStr (c_name c)),
           (''filePath'', VStr (c_filePath c)), (''sourceCode'', VStr (c_sourceCode c)),
           (''screenshots'', valueOfScreenshots (c_screenshots c)),
           (''bounds'', valueOfBounds (c_bounds c)),
           (''props'', VArr (map valueOfProp (c_props c))),
           (''imports'', valueOfStrings (c_imports c)),
           (''dependencies'', valueOfStrings (c_dependencies c)),
           (''styles'', valueOfStyles (c_styles c)),
           (''usedIn'', valueOfStrings (c_usedIn c)),
           (''children'', valueOfStrings (c_children c)),
           (''description'', VStr (c_description c)),
           (''tags'', valueOfStrings (c_tags c)),
           (''lastModified'', valueOfTimestamp (c_lastModified c))]"

definition valueOfPage :: "PageIndex \<Rightarrow> jsval" where
  "valueOfPage p =
     VObj [(''id'', VStr (p_id p)), (''name'', VStr (p_name p)), (''route'', VStr (p_route p)),
           (''filePath'', VStr (p_filePath p)),
           (''components'', valueOfStrings (p_components p)),
           (''screenshots'', valueOfScreenshots (p_screenshots p))]"

fun valueOfFramework :: "Framework \<Rightarrow> jsval" where
  "valueOfFramework React = VStr ''react''"
| "valueOfFramework Vue = VStr ''vue''"
| "valueOfFramework Angular = VStr ''angular''"
| "valueOfFramework Unknown = VStr ''unknown''"

definition valueOfMetadata :: "Metadata \<Rightarrow> jsval" where
  "valueOfMetadata m =
     VObj [(''projectPath'', VStr (m_projectPath m)),
           (''framework'', valueOfFramework (m_framework m)),
           (''lastIndexed'', valueOfTimestamp (m_lastIndexed m)),
           (''componentsCount'', VNum (m_componentsCount m)),
           (''pagesCount'', VNum (m_pagesCount m))]"

definition valueOfEmbedding :: "Embedding \<Rightarrow> jsval" where
  "valueOfEmbedding e =
     VObj [(''visual'', valueOfNumbers (e_visual e)),
           (''semantic'', valueOfNumbers (e_semantic e))]"

definition valueOfEmbeddings :: "(string \<times> Embedding) list \<Rightarrow> jsval" where
  "valueOfEmbeddings es = VObj (map (\<lambda>ke. (fst ke, valueOfEmbedding (snd ke))) es)"

definition valueOfIndex :: "ProjectIndex \<Rightarrow> jsval" where
  "valueOfIndex idx =
     VObj ([(''metadata'', valueOfMetadata (metadata idx)),
            (''components'', VArr (map valueOfComponent (components idx))),
            (''pages'', VArr (map valueOfPage (pages idx)))]
           @ optionalProp ''embeddings'' valueOfEmbeddings (embeddings idx))"

subsection \<open>\<open>saveIndex\<close> and \<open>loadIndex\<close>\<close>

text \<open>
  The file system maps a path to the content of the file there. \<open>path.join\<close> puts a
  separator between its arguments (and normalises the result; save and load apply it to
  the same project path).
\<close>

datatype fileContent = Document json | NotJson

type_synonym files = "string \<rightharpoonup> fileContent"

definition indexPath :: "string \<Rightarrow> string" where
  "indexPath projectPath = projectPath @ ''/'' @ ''.ui-context-index.json''"

record ProjectIndexer =
  pi_projectPath :: string
  pi_index :: ProjectIndex

text \<open>
  \<open>saveIndex\<close>: the new file system, or \<open>None\<close> when \<open>fs.writeFile\<close> rejects because
  \<open>JSON.stringify\<close> returned \<open>undefined\<close> (which it does not on an object). Failures
  of the disk are not modelled.
\<close>

definition saveIndex :: "ProjectIndexer \<Rightarrow> files \<Rightarrow> files option" where
  "saveIndex this fs =
     (case stringify (valueOfIndex (pi_index this)) of
        None \<Rightarrow> None
      | Some doc \<Rightarrow> Some (fs (indexPath (pi_projectPath this) \<mapsto> Document doc)))"

text \<open>
  \<open>loadIndex\<close>: \<open>None\<close> is the result \<open>null\<close>, for a missing file, for a text that
  is not JSON, and for the document \<open>null\<close>.
\<close>

definition loadIndex :: "string \<Rightarrow> files \<Rightarrow> jsval option" where
  "loadIndex projectPath fs =
     (case fs (indexPath projectPath) of
        None \<Rightarrow> None
      | Some NotJson \<Rightarrow> None
      | Some (Document doc) \<Rightarrow>
          (case parseValue doc of VNull \<Rightarrow> None | v \<Rightarrow> Some v))"

text \<open>
  For the statement of what a round trip does: the index in which every \<open>Date\<close> is
  replaced by its ISO string, and a string stays as it is.
\<close>

fun isoTimestamp :: "timestamp \<Rightarrow> timestamp" where
  "isoTimestamp (DateObj t) = DateString (toISOString t)"
| "isoTimestamp (DateString s) = DateString s"

definition isoDates :: "ProjectIndex \<Rightarrow> ProjectIndex" where
  "isoDates idx =
     idx \<lparr> metadata := (metadata idx)
              \<lparr> m_lastIndexed := isoTimestamp (m_lastIndexed (metadata idx)) \<rparr>,
           components := map (\<lambda>c. c \<lparr> c_lastModified := isoTimestamp (c_lastModified c) \<rparr>)
                             (components idx) \<rparr>"

text \<open>
  For the proof: the value in which every \<open>Date\<close> is replaced by its ISO string, and
  the values without \<open>undefined\<close>.
\<close>

fun datesToISO :: "jsval \<Rightarrow> jsval"
  and datesToISOElements :: "jsval list \<Rightarrow> jsval list"
  and datesToISOProperties :: "(string \<times> jsval) list \<Rightarrow> (string \<times> jsval) list" where
  "datesToISO (VDate t) = VStr (toISOString t)"
| "datesToISO (VArr vs) = VArr (datesToISOElements vs)"
| "datesToISO (VObj kvs) = VObj (datesToISOProperties kvs)"
| "datesToISO VUndefined = VUndefined"
| "datesToISO VNull = VNull"
| "datesToISO (VBool b) = VBool b"
| "datesToISO (VNum n) = VNum n"
| "datesToISO (VStr s) = VStr s"
| "datesToISOElements [] = []"
| "datesToISOElements (v # vs) = datesToISO v # datesToISOElements vs"
| "datesToISOProperties [] = []"
| "datesToISOProperties (kv # kvs) = (fst kv, datesToISO (snd kv)) # datesToISOProperties kvs"

fun defined :: "jsval \<Rightarrow> bool"
  and definedElements :: "jsval list \<Rightarrow> bool"
  and definedProperties :: "(string \<times> jsval) list \<Rightarrow> bool" where
  "defined VUndefined = False"
| "defined (VArr vs) = definedElements vs"
| "defined (VObj kvs) = definedProperties kvs"
| "defined VNull = True"
| "defined (VBool b) = True"
| "defined (VNum n) = True"
| "defined (VStr s) = True"
| "defined (VDate t) = True"
| "definedElements [] = True"
| "definedElements (v # vs) = (defined v \<and> definedElements vs)"
| "definedProperties [] = True"
| "definedProperties (kv # kvs) = (defined (snd kv) \<and> definedProperties kvs)"


section \<open>Example data\<close>

definition submitButton :: ComponentIndex where
  "submitButton = analyzedComponent ''src_components_SubmitButton'' ''SubmitButton''
     ''src/components/SubmitButton.tsx''
     ''export const Submit = () => <a onClick={send}>Send</a>'' [] []
     ''SubmitButton component'' 0"

definition headerComponent :: ComponentIndex where
  "headerComponent = analyzedComponent ''src_Header'' ''Header'' ''src/Header.tsx''
     ''export const Header = () => <h1>Shop</h1>'' [] [] ''Top card area'' 0"

definition cardComponent :: ComponentIndex where
  "cardComponent = analyzedComponent ''src_Card'' ''Card'' ''src/Card.tsx''
     ''export const Card = (props) => <div>{props.children}</div>''
     [extractedProp ''title'' ''string'' True] [] ''Card component'' 0"

definition footerComponent :: ComponentIndex where
  "footerComponent = analyzedComponent ''src_Footer'' ''Footer'' ''src/Footer.tsx''
     ''export const Footer = () => <p>Bye</p>'' [] [] ''Bottom card area'' 0"

definition shopIndex :: ProjectIndex where
  "shopIndex = indexOfProject ''/shop'' React 0
     [headerComponent, cardComponent, footerComponent, submitButton] []"

text \<open>
  Two components of an index file in which the first lists the page \<open>src_pages_Home\<close>
  twice in \<open>usedIn\<close>.
\<close>

definition navbarTwice :: ComponentIndex where
  "navbarTwice = (analyzedComponent ''src_Navbar'' ''Navbar'' ''src/Navbar.tsx''
       ''export const Navbar = () => <nav/>'' [] [] ''Navbar component'' 0)
     \<lparr> c_usedIn := [''src_pages_Home'', ''src_pages_Home''] \<rparr>"

definition sidebarOnce :: ComponentIndex where
  "sidebarOnce = (analyzedComponent ''src_Sidebar'' ''Sidebar'' ''src/Sidebar.tsx''
       ''export const Sidebar = () => <aside/>'' [] [] ''Sidebar component'' 0)
     \<lparr> c_usedIn := [''src_pages_Home''] \<rparr>"

text \<open>
  An element as \<open>extractTargetElements\<close> records it, with the given text, tag, class and
  size, and no role, label or style recorded.
\<close>

definition plainElement :: "string \<Rightarrow> string \<Rightarrow> string \<Rightarrow> int \<Rightarrow> int \<Rightarrow> VisualElement" where
  "plainElement tag txt cls w h =
     \<lparr> ve_selector = tag, ve_text = txt,
       ve_bounds = \<lparr> bb_x = 0, bb_y = 0, bb_width = w, bb_height = h \<rparr>,
       ve_tagName = tag, ve_className = cls, ve_id = [],
       ve_attributes = \<lparr> a_role = None, a_ariaLabel = None, a_type = None,
                         a_placeholder = None \<rparr>,
       ve_styles = \<lparr> es_position = None, es_display = None, es_backgroundColor = None,
                     es_color = None, es_fontSize = None, es_fontWeight = None,
                     es_padding = None, es_margin = None, es_border = None,
                     es_borderRadius = None \<rparr>,
       ve_elementIndex = 0 \<rparr>"

definition priceTag :: ComponentIndex where
  "priceTag = analyzedComponent ''src_PriceTag'' ''PriceTag'' ''src/PriceTag.tsx''
     ''export default (props) => <b>{props.amount}</b>''
     [extractedProp ''priceCents'' ''number'' True, extractedProp ''priceLabel'' ''string'' False]
     [] ''Shows an amount'' 0"

definition priceIndex :: ProjectIndex where
  "priceIndex = indexOfProject ''/shop'' React 0 [headerComponent, priceTag] []"

definition priceElement :: VisualElement where
  "priceElement = plainElement ''span'' ''Price'' [] 120 48"

definition smallElement :: VisualElement where
  "smallElement = plainElement ''a'' ''ok'' [] 30 30"

text \<open>
  An index with two components named \<open>Button\<close>, in two directories, and a page that
  uses \<open>Button\<close>.
\<close>

definition uiButton :: ComponentIndex where
  "uiButton = analyzedComponent ''src_ui_Button'' ''Button'' ''src/ui/Button.tsx''
     ''export const Button = (props) => <button>{props.label}</button>'' [] []
     ''Button component'' 0"

definition formsButton :: ComponentIndex where
  "formsButton = analyzedComponent ''src_forms_Button'' ''Button'' ''src/forms/Button.tsx''
     ''export const Button = (props) => <input {...props}/>'' [] []
     ''Button component'' 0"

definition homePage :: PageIndex where
  "homePage = \<lparr> p_id = ''src_pages_Home'', p_name = ''Home'', p_route = ''/'',
                 p_filePath = ''src/pages/Home.tsx'', p_components = [''Button''],
                 p_screenshots = \<lparr> s_desktop = None, s_tablet = None, s_mobile = None \<rparr> \<rparr>"

definition buttonsIndex :: ProjectIndex where
  "buttonsIndex = indexOfProject ''/site'' React 0 [uiButton, formsButton] [homePage]"


section \<open>Properties of the search engine\<close>

subsection \<open>The result list and the sort\<close>

lemma collectResults_eq:
  "collectResults cs q =
     map (\<lambda>c. \<lparr> component = c, relevanceScore = calculateRelevanceScore c q,
                 matches = findMatches c q \<rparr>)
         (filter (\<lambda>c. 0 < calculateRelevanceScore c q) cs)"
  by (induction cs) (simp_all add: Let_def)

lemma set_insortCmp: "set (insortCmp cmp x xs) = insert x (set xs)"
  by (induction xs) auto

lemma set_arraySort: "set (arraySort cmp xs) = set xs"
  by (induction xs) (simp_all add: arraySort_def set_insortCmp)

lemma arraySort_Cons: "arraySort cmp (x # xs) = insortCmp cmp x (arraySort cmp xs)"
  by (simp add: arraySort_def)

lemma sorted_insortCmp:
  "sorted_wrt (\<lambda>a b. relevanceScore b \<le> relevanceScore a) xs \<Longrightarrow>
   sorted_wrt (\<lambda>a b. relevanceScore b \<le> relevanceScore a) (insortCmp byScoreDesc x xs)"
  by (induction xs) (auto simp: byScoreDesc_def set_insortCmp)

lemma sorted_arraySort:
  "sorted_wrt (\<lambda>a b. relevanceScore b \<le> relevanceScore a) (arraySort byScoreDesc xs)"
  by (induction xs) (simp_all add: arraySort_Cons sorted_insortCmp, simp add: arraySort_def)

lemma filter_insortCmp_other:
  "relevanceScore x \<noteq> s \<Longrightarrow>
   filter (\<lambda>r. relevanceScore r = s) (insortCmp byScoreDesc x xs)
     = filter (\<lambda>r. relevanceScore r = s) xs"
  by (induction xs) auto

lemma filter_insortCmp_same:
  "sorted_wrt (\<lambda>a b. relevanceScore b \<le> relevanceScore a) xs \<Longrightarrow>
   filter (\<lambda>r. relevanceScore r = relevanceScore x) (insortCmp byScoreDesc x xs)
     = x # filter (\<lambda>r. relevanceScore r = relevanceScore x) xs"
proof (induction xs)
  case Nil
  then show ?case by simp
next
  case (Cons y ys)
  show ?case
  proof (cases "byScoreDesc x y \<le> 0")
    case True
    then show ?thesis by simp
  next
    case False
    then have "relevanceScore y \<noteq> relevanceScore x" by (simp add: byScoreDesc_def)
    with False Cons show ?thesis by simp
  qed
qed

lemma arraySort_stable:
  "filter (\<lambda>r. relevanceScore r = s) (arraySort byScoreDesc xs)
     = filter (\<lambda>r. relevanceScore r = s) xs"
proof (induction xs)
  case Nil
  then show ?case by (simp add: arraySort_def)
next
  case (Cons x xs)
  show ?case
  proof (cases "relevanceScore x = s")
    case True
    then show ?thesis
      using filter_insortCmp_same [OF sorted_arraySort, of x xs] Cons
      by (simp add: arraySort_Cons)
  next
    case False
    then show ?thesis using Cons by (simp add: arraySort_Cons filter_insortCmp_other)
  qed
qed

lemma score_emptyQuery: "calculateRelevanceScore c emptyQuery = 0"
  by (simp add: calculateRelevanceScore_def emptyQuery_def textScore_def tagScore_def
      typeScore_def hasPropsScore_def sideEffectsScore_def usedInScore_def)

lemma collectResults_none:
  "\<forall>c \<in> set cs. calculateRelevanceScore c q = 0 \<Longrightarrow> collectResults cs q = []"
  by (induction cs) simp_all

lemma shopIndex_card_search:
  "map (\<lambda>r. (c_name (component r), relevanceScore r)) (searchComponents shopIndex (textQuery ''card''))
     = [(''Card'', 17), (''Header'', 5), (''Footer'', 5)]"
  by code_simp

text \<open>
  Claim C4. \<open>searchComponents\<close> returns its results in descending order of
  \<open>relevanceScore\<close>, and for every score \<open>s\<close> the results with that score are, in this
  order, the components of \<open>index.components\<close> with that (positive) score: results of
  equal score keep the order their components have in the index.
\<close>

theorem searchComponents_sorted_stable:
  "sorted_wrt (\<lambda>a b. relevanceScore b \<le> relevanceScore a) (searchComponents idx q)
   \<and> (\<forall>s. map component (filter (\<lambda>r. relevanceScore r = s) (searchComponents idx q))
          = filter (\<lambda>c. calculateRelevanceScore c q = s \<and> 0 < s) (components idx))"
proof -
  have "map component (filter (\<lambda>r. relevanceScore r = s) (searchComponents idx q))
          = filter (\<lambda>c. calculateRelevanceScore c q = s \<and> 0 < s) (components idx)" for s
    unfolding searchComponents_def arraySort_stable collectResults_eq
    by (induction "components idx") (auto simp: filter_map comp_def intro: filter_cong)
  then show ?thesis by (simp add: searchComponents_def sorted_arraySort)
qed

text \<open>
  The theorem at the shop index and the query \<open>{text: "card"}\<close>: \<open>Card\<close> (17) comes
  first, and \<open>Header\<close> and \<open>Footer\<close>, both with score 5, follow in index order.
\<close>

theorem searchComponents_sorted_stable_witness:
  "map (\<lambda>r. (c_name (component r), relevanceScore r))
       (searchComponents shopIndex (textQuery ''card''))
     = [(''Card'', 17), (''Header'', 5), (''Footer'', 5)]
   \<and> map component (filter (\<lambda>r. relevanceScore r = 5)
                             (searchComponents shopIndex (textQuery ''card'')))
     = filter (\<lambda>c. calculateRelevanceScore c (textQuery ''card'') = 5 \<and> (0::int) < 5)
              (components shopIndex)"
  using searchComponents_sorted_stable [of shopIndex "textQuery ''card''"]
    shopIndex_card_search
  by blast

text \<open>
  Claim C10. Every result of \<open>searchComponents\<close> has a \<open>relevanceScore\<close> greater than
  0, which is the clamped score of its component; the components that appear in the
  results are exactly those of the index whose score is not 0; and the query with no
  text, tags or filters returns the empty list.
\<close>

theorem searchComponents_positive:
  "(\<forall>r \<in> set (searchComponents idx q).
       0 < relevanceScore r \<and> relevanceScore r = calculateRelevanceScore (component r) q)
   \<and> component ` set (searchComponents idx q)
       = {c \<in> set (components idx). calculateRelevanceScore c q \<noteq> 0}
   \<and> searchComponents idx emptyQuery = []"
proof -
  have pos: "0 \<le> calculateRelevanceScore c q" for c
    by (simp add: calculateRelevanceScore_def)
  have ne: "(calculateRelevanceScore c q \<noteq> 0) = (0 < calculateRelevanceScore c q)" for c
    using pos [of c] by linarith
  have a: "\<forall>r \<in> set (searchComponents idx q).
       0 < relevanceScore r \<and> relevanceScore r = calculateRelevanceScore (component r) q"
    by (auto simp: searchComponents_def set_arraySort collectResults_eq)
  have b: "component ` set (searchComponents idx q)
       = {c \<in> set (components idx). calculateRelevanceScore c q \<noteq> 0}"
    unfolding ne by (force simp: searchComponents_def set_arraySort collectResults_eq)
  have c: "searchComponents idx emptyQuery = []"
    by (simp add: searchComponents_def collectResults_none score_emptyQuery arraySort_def)
  from a b c show ?thesis by blast
qed

lemma shopIndex_button_search:
  "map (\<lambda>r. (c_name (component r), relevanceScore r))
       (searchComponents shopIndex (textQuery ''button''))
     = [(''SubmitButton'', 15)]"
  by code_simp

text \<open>
  The theorem at the shop index and the query \<open>{text: "button"}\<close>: the result list is
  not empty, so the statement about every result is not vacuous there.
\<close>

theorem searchComponents_positive_witness:
  "map (\<lambda>r. (c_name (component r), relevanceScore r))
       (searchComponents shopIndex (textQuery ''button''))
     = [(''SubmitButton'', 15)]
   \<and> 0 < relevanceScore (hd (searchComponents shopIndex (textQuery ''button'')))
   \<and> relevanceScore (hd (searchComponents shopIndex (textQuery ''button'')))
       = calculateRelevanceScore
           (component (hd (searchComponents shopIndex (textQuery ''button''))))
           (textQuery ''button'')
   \<and> searchComponents shopIndex emptyQuery = []"
proof -
  have "searchComponents shopIndex (textQuery ''button'') \<noteq> []"
    using shopIndex_button_search by auto
  then have "hd (searchComponents shopIndex (textQuery ''button''))
               \<in> set (searchComponents shopIndex (textQuery ''button''))"
    by simp
  then show ?thesis
    using searchComponents_positive [of shopIndex "textQuery ''button''"]
      shopIndex_button_search
    by blast
qed

subsection \<open>Tags in the query\<close>

lemma tagScore_eq:
  "tagScore c q = int (length (filter (\<lambda>tag. tag \<in> set (queryTags q)) (c_tags c))) * 4"
  by (simp add: tagScore_def queryTags_def split: option.splits)

lemma length_filter_mono:
  "(\<And>x. P x \<Longrightarrow> Q x) \<Longrightarrow> length (filter P xs) \<le> length (filter Q xs)"
  by (induction xs) auto

text \<open>
  Claim C7. If the component has the tag \<open>t\<close>, then putting \<open>t\<close> into \<open>query.tags\<close>
  (at any position; into the empty list when \<open>query.tags\<close> was absent) does not lower
  the component's relevance score.
\<close>

theorem add_tag_monotone:
  assumes "t \<in> set (c_tags c)" and "queryTags q = xs @ ys"
  shows "calculateRelevanceScore c q
           \<le> calculateRelevanceScore c (q\<lparr>q_tags := Some (xs @ t # ys)\<rparr>)"
proof -
  let ?q' = "q\<lparr>q_tags := Some (xs @ t # ys)\<rparr>"
  have "length (filter (\<lambda>tag. tag \<in> set (queryTags q)) (c_tags c))
          \<le> length (filter (\<lambda>tag. tag \<in> set (queryTags ?q')) (c_tags c))"
    by (rule length_filter_mono)
       (use assms(2) in \<open>auto simp: queryTags_def split: option.splits\<close>)
  then have "tagScore c q \<le> tagScore c ?q'"
    by (simp add: tagScore_eq)
  moreover have "textScore c ?q' = textScore c q" "typeScore c ?q' = typeScore c q"
    "hasPropsScore c ?q' = hasPropsScore c q" "sideEffectsScore c ?q' = sideEffectsScore c q"
    "usedInScore c ?q' = usedInScore c q"
    by (simp_all add: textScore_def typeScore_def hasPropsScore_def sideEffectsScore_def
        usedInScore_def)
  ultimately show ?thesis
    by (simp add: calculateRelevanceScore_def)
qed

lemma submitButton_tags: "c_tags submitButton = [''interactive'']"
  by code_simp

lemma submitButton_scores:
  "calculateRelevanceScore submitButton (textQuery ''button'') = 15
   \<and> calculateRelevanceScore submitButton
        (textQuery ''button'' \<lparr>q_tags := Some [''interactive'']\<rparr>) = 19"
  by code_simp

text \<open>
  The theorem at \<open>SubmitButton\<close>, which has the tag \<open>interactive\<close>, and the query
  \<open>{text: "button"}\<close>: the score goes from 15 to 19.
\<close>

theorem add_tag_monotone_witness:
  "''interactive'' \<in> set (c_tags submitButton)
   \<and> queryTags (textQuery ''button'') = [] @ []
   \<and> calculateRelevanceScore submitButton (textQuery ''button'') = 15
   \<and> calculateRelevanceScore submitButton
        (textQuery ''button'' \<lparr>q_tags := Some ([] @ ''interactive'' # [])\<rparr>) = 19
   \<and> calculateRelevanceScore submitButton (textQuery ''button'')
       \<le> calculateRelevanceScore submitButton
            (textQuery ''button'' \<lparr>q_tags := Some ([] @ ''interactive'' # [])\<rparr>)"
proof -
  have t: "''interactive'' \<in> set (c_tags submitButton)"
    by (simp add: submitButton_tags)
  have qt: "queryTags (textQuery ''button'') = [] @ []"
    by (simp add: queryTags_def textQuery_def emptyQuery_def)
  show ?thesis
    using add_tag_monotone [OF t qt] t qt submitButton_scores by simp
qed

subsection \<open>The \<open>SubmitButton\<close> scenario\<close>

lemma propsTextScore_nonneg: "0 \<le> propsTextScore props searchText"
  by (induction props) simp_all

lemma lower_button: "toLowerCase ''button'' = ''button''"
  by code_simp

lemma lower_SubmitButton: "toLowerCase ''SubmitButton'' = ''submitbutton''"
  by code_simp

lemma lower_SubmitButton_component:
  "toLowerCase ''SubmitButton component'' = ''submitbutton component''"
  by code_simp

lemma fieldMatch_name:
  "fieldMatch ''name'' ''SubmitButton'' ''button''
     = [\<lparr> field = ''name'', snippet = ''SubmitButton'', highlightStart = 6, highlightEnd = 12 \<rparr>]"
  by (simp add: fieldMatch_def lower_SubmitButton indexOf_def substring_def)

lemma fieldMatch_description:
  "fieldMatch ''description'' ''SubmitButton component'' ''button''
     = [\<lparr> field = ''description'', snippet = ''SubmitButton component'',
          highlightStart = 6, highlightEnd = 12 \<rparr>]"
  by (simp add: fieldMatch_def lower_SubmitButton_component indexOf_def substring_def)

lemma fieldMatch_field:
  "map field (fieldMatch fname content searchText)
     = (if includesStr (toLowerCase content) searchText then [fname] else [])"
  by (simp add: fieldMatch_def includesStr_def Let_def)

lemma submitButton_source:
  "\<not> includesStr (toLowerCase (c_sourceCode submitButton)) ''button''"
  by code_simp

text \<open>
  Claim C2, as the code has it. For a component named \<open>SubmitButton\<close> with the
  description \<open>SubmitButton component\<close>, whatever its source text, tags and props, the
  query \<open>{text: "button"}\<close> gives the relevance score 15 (10 for the name and 5 for the
  description, which contains the name), plus 2 if the source text contains \<open>button\<close> in
  any letter case, plus 3 for every prop whose name or type does; and \<open>matches\<close> holds a
  record on \<open>name\<close>, then one on \<open>description\<close>, then one on \<open>sourceCode\<close> exactly when
  the source text contains \<open>button\<close>.
\<close>

theorem submitButton_button_query:
  assumes "c_name c = ''SubmitButton''" and "c_description c = ''SubmitButton component''"
  shows "calculateRelevanceScore c (textQuery ''button'')
           = 15 + (if includesStr (toLowerCase (c_sourceCode c)) ''button'' then 2 else 0)
                + propsTextScore (c_props c) ''button''
         \<and> 15 \<le> calculateRelevanceScore c (textQuery ''button'')
         \<and> findMatches c (textQuery ''button'')
           = \<lparr> field = ''name'', snippet = ''SubmitButton'',
               highlightStart = 6, highlightEnd = 12 \<rparr>
           # \<lparr> field = ''description'', snippet = ''SubmitButton component'',
               highlightStart = 6, highlightEnd = 12 \<rparr>
           # fieldMatch ''sourceCode'' (c_sourceCode c) ''button''
         \<and> map field (findMatches c (textQuery ''button''))
           = ''name'' # ''description''
             # (if includesStr (toLowerCase (c_sourceCode c)) ''button''
                then [''sourceCode''] else [])"
proof -
  let ?q = "textQuery ''button''"
  have inc: "includesStr ''submitbutton'' ''button''"
    "includesStr ''submitbutton component'' ''button''"
    by (simp_all add: includesStr_def indexOf_def)
  have t: "textScore c ?q
        = 15 + (if includesStr (toLowerCase (c_sourceCode c)) ''button'' then 2 else 0)
             + propsTextScore (c_props c) ''button''"
    by (simp add: textScore_def textQuery_def emptyQuery_def assms lower_button
        lower_SubmitButton lower_SubmitButton_component inc)
  have rest: "tagScore c ?q = 0" "typeScore c ?q = 0" "hasPropsScore c ?q = 0"
    "sideEffectsScore c ?q = 0" "usedInScore c ?q = 0"
    by (simp_all add: tagScore_def typeScore_def hasPropsScore_def sideEffectsScore_def
        usedInScore_def textQuery_def emptyQuery_def)
  have score: "calculateRelevanceScore c ?q
           = 15 + (if includesStr (toLowerCase (c_sourceCode c)) ''button'' then 2 else 0)
                + propsTextScore (c_props c) ''button''"
    using propsTextScore_nonneg [of "c_props c" "''button''"]
    by (simp add: calculateRelevanceScore_def t rest)
  have ge: "15 \<le> calculateRelevanceScore c ?q"
    using propsTextScore_nonneg [of "c_props c" "''button''"] by (simp add: score)
  have m: "findMatches c ?q
           = \<lparr> field = ''name'', snippet = ''SubmitButton'',
               highlightStart = 6, highlightEnd = 12 \<rparr>
           # \<lparr> field = ''description'', snippet = ''SubmitButton component'',
               highlightStart = 6, highlightEnd = 12 \<rparr>
           # fieldMatch ''sourceCode'' (c_sourceCode c) ''button''"
    by (simp add: findMatches_def textQuery_def emptyQuery_def assms lower_button
        fieldMatch_name fieldMatch_description)
  have f: "map field (findMatches c ?q)
           = ''name'' # ''description''
             # (if includesStr (toLowerCase (c_sourceCode c)) ''button''
                then [''sourceCode''] else [])"
    unfolding m by (simp add: fieldMatch_field)
  from score ge m f show ?thesis by blast
qed

text \<open>
  The theorem at the component \<open>submitButton\<close>, whose source text has an \<open>onClick\<close>
  and no \<open>button\<close>, and which has no props: score 15, matches on \<open>name\<close> and
  \<open>description\<close>.
\<close>

theorem submitButton_button_query_witness:
  "c_name submitButton = ''SubmitButton''
   \<and> c_description submitButton = ''SubmitButton component''
   \<and> calculateRelevanceScore submitButton (textQuery ''button'') = 15
   \<and> map field (findMatches submitButton (textQuery ''button'')) = [''name'', ''description'']"
proof -
  have n: "c_name submitButton = ''SubmitButton''"
    and d: "c_description submitButton = ''SubmitButton component''"
    and p: "c_props submitButton = []"
    by (simp_all add: submitButton_def analyzedComponent_def)
  from submitButton_button_query [OF n d]
  have a: "calculateRelevanceScore submitButton (textQuery ''button'')
           = 15 + (if includesStr (toLowerCase (c_sourceCode submitButton)) ''button''
                   then 2 else 0)
                + propsTextScore (c_props submitButton) ''button''"
    and b: "map field (findMatches submitButton (textQuery ''button''))
           = ''name'' # ''description''
             # (if includesStr (toLowerCase (c_sourceCode submitButton)) ''button''
                then [''sourceCode''] else [])"
    by blast+
  show ?thesis
    using submitButton_source by (simp add: a b n d p)
qed

text \<open>
  Claim C2 as it is written fails at \<open>submitButton\<close>: the component is named
  \<open>SubmitButton\<close>, is described as \<open>SubmitButton component\<close>, has an \<open>onClick\<close> in its
  source text and carries the tag \<open>interactive\<close>, and the query \<open>{text: "button"}\<close>
  gives it the score 15, not 10, with two match records, not one.
\<close>

theorem submitButton_counterexample:
  "c_name submitButton = ''SubmitButton''
   \<and> c_description submitButton = ''SubmitButton component''
   \<and> includesStr (c_sourceCode submitButton) ''onClick''
   \<and> c_tags submitButton = [''interactive'']
   \<and> calculateRelevanceScore submitButton (textQuery ''button'') = 15
   \<and> calculateRelevanceScore submitButton (textQuery ''button'') \<noteq> 10
   \<and> map field (findMatches submitButton (textQuery ''button'')) = [''name'', ''description'']
   \<and> length (findMatches submitButton (textQuery ''button'')) \<noteq> 1"
  by code_simp


section \<open>String similarity\<close>

lemma editDistance_Nil2 [simp]: "editDistance xs [] = length xs"
  by (cases xs) simp_all

lemma editDistance_sym: "editDistance xs ys = editDistance ys xs"
  by (induction xs ys rule: editDistance.induct) (simp_all add: min.commute min.left_commute)

lemma editDistance_same [simp]: "editDistance xs xs = 0"
  by (induction xs) simp_all

lemma editDistance_adjacent:
  "length xs + length ys = n \<Longrightarrow>
     editDistance xs ys \<le> editDistance xs (y # ys) + 1
   \<and> editDistance xs ys \<le> editDistance (x # xs) ys + 1
   \<and> editDistance (x # xs) ys \<le> editDistance xs ys + 1
   \<and> editDistance xs (y # ys) \<le> editDistance xs ys + 1"
proof (induction n arbitrary: xs ys x y rule: less_induct)
  case (less n)
  have IH: "editDistance xs' ys' \<le> editDistance xs' (y' # ys') + 1
   \<and> editDistance xs' ys' \<le> editDistance (x' # xs') ys' + 1
   \<and> editDistance (x' # xs') ys' \<le> editDistance xs' ys' + 1
   \<and> editDistance xs' (y' # ys') \<le> editDistance xs' ys' + 1"
    if "length xs' + length ys' < n" for xs' ys' :: "'a list" and x' y'
    using less.IH [OF that refl] .
  have g1: "editDistance xs ys \<le> editDistance xs (y # ys) + 1"
  proof (cases xs)
    case Nil
    then show ?thesis by simp
  next
    case (Cons a xs')
    then have "length xs' + length ys < n" using less.prems by simp
    from IH [OF this, of y a] show ?thesis
      unfolding Cons by (auto simp: min_def)
  qed
  have g2: "editDistance xs ys \<le> editDistance (x # xs) ys + 1"
  proof (cases ys)
    case Nil
    then show ?thesis by simp
  next
    case (Cons b ys')
    then have "length xs + length ys' < n" using less.prems by simp
    from IH [OF this, of b x] show ?thesis
      unfolding Cons by (auto simp: min_def)
  qed
  have g3: "editDistance (x # xs) ys \<le> editDistance xs ys + 1"
  proof (cases ys)
    case Nil
    then show ?thesis by simp
  next
    case (Cons b ys')
    then have "length xs + length ys' < n" using less.prems by simp
    from IH [OF this, of b x] show ?thesis
      unfolding Cons by (auto simp: min_def)
  qed
  have g4: "editDistance xs (y # ys) \<le> editDistance xs ys + 1"
  proof (cases xs)
    case Nil
    then show ?thesis by simp
  next
    case (Cons a xs')
    then have "length xs' + length ys < n" using less.prems by simp
    from IH [OF this, of y a] show ?thesis
      unfolding Cons by (auto simp: min_def)
  qed
  from g1 g2 g3 g4 show ?case by blast
qed

lemma editDistance_delete: "editDistance (x # xs) ys \<le> editDistance xs ys + 1"
  using editDistance_adjacent [OF refl, of xs ys] by blast

lemma editDistance_insert: "editDistance xs (y # ys) \<le> editDistance xs ys + 1"
  using editDistance_adjacent [OF refl, of xs ys] by blast

lemma edits_Nil1: "edits (length ys) [] ys"
  by (induction ys) (auto intro: edits.intros)

lemma edits_Nil2: "edits (length xs) xs []"
  by (induction xs) (auto intro: edits.intros)

lemma edits_editDistance: "edits (editDistance xs ys) xs ys"
proof (induction xs ys rule: editDistance.induct)
  case (1 ys)
  then show ?case by (simp add: edits_Nil1)
next
  case (2 x xs)
  then show ?case using edits_Nil2 [of "x # xs"] by simp
next
  case (3 x xs y ys)
  show ?case
  proof (cases "x = y")
    case True
    then show ?thesis using 3 by (auto intro: edits.intros)
  next
    case False
    then show ?thesis using 3 
      by (auto simp: min_def intro: edits.intros)
  qed
qed

lemma editDistance_le: "edits n xs ys \<Longrightarrow> editDistance xs ys \<le> n"
proof (induction rule: edits.induct)
  case e_nil
  then show ?case by simp
next
  case (e_delete n xs ys x)
  then show ?case using editDistance_delete [of x xs ys] by linarith
next
  case (e_insert n xs ys y)
  then show ?case using editDistance_insert [of xs y ys] by linarith
next
  case (e_keep n xs ys x)
  then show ?case by simp
next
  case (e_substitute n xs ys x y)
  then show ?case by (simp add: min_def)
qed

lemma edits_snoc_delete: "edits n xs ys \<Longrightarrow> edits (Suc n) (xs @ [x]) ys"
  by (induction rule: edits.induct) (auto intro: edits.intros)

lemma edits_snoc_insert: "edits n xs ys \<Longrightarrow> edits (Suc n) xs (ys @ [y])"
  by (induction rule: edits.induct) (auto intro: edits.intros)

lemma edits_snoc_keep: "edits n xs ys \<Longrightarrow> edits n (xs @ [x]) (ys @ [x])"
  by (induction rule: edits.induct) (auto intro: edits.intros)

lemma edits_snoc_substitute: "edits n xs ys \<Longrightarrow> edits (Suc n) (xs @ [x]) (ys @ [y])"
  by (induction rule: edits.induct) (auto intro: edits.intros)

lemma edits_rev: "edits n xs ys \<Longrightarrow> edits n (rev xs) (rev ys)"
  by (induction rule: edits.induct)
     (auto intro: edits.intros edits_snoc_delete edits_snoc_insert edits_snoc_keep
        edits_snoc_substitute)

lemma editDistance_rev: "editDistance (rev xs) (rev ys) = editDistance xs ys"
proof (rule antisym)
  show "editDistance (rev xs) (rev ys) \<le> editDistance xs ys"
    by (rule editDistance_le [OF edits_rev [OF edits_editDistance]])
  have "edits (editDistance (rev xs) (rev ys)) (rev (rev xs)) (rev (rev ys))"
    by (rule edits_rev [OF edits_editDistance])
  then show "editDistance xs ys \<le> editDistance (rev xs) (rev ys)"
    using editDistance_le by fastforce
qed


declare innerLoop.simps [simp del] outerLoop.simps [simp del]

lemma prefixDist_0_left: "i \<le> length b \<Longrightarrow> prefixDist a b i 0 = i"
  by (simp add: prefixDist_def)

lemma prefixDist_0_top: "j \<le> length a \<Longrightarrow> prefixDist a b 0 j = j"
  by (simp add: prefixDist_def)

lemma prefixDist_Suc:
  assumes "i < length b" and "j < length a"
  shows "prefixDist a b (Suc i) (Suc j) =
     (if b ! i = a ! j then prefixDist a b i j
      else min (prefixDist a b i j + 1)
               (min (prefixDist a b (Suc i) j + 1) (prefixDist a b i (Suc j) + 1)))"
  using assms by (auto simp: prefixDist_def take_Suc_conv_app_nth)

lemma length_matrixAt: "length (matrixAt a b i j) = Suc (length b)"
  by (simp add: matrixAt_def)

lemma map_upt_one: "map f [0 ..< Suc 0] = [f 0]"
  by simp

lemma matrixAt_row:
  "i' \<le> length b \<Longrightarrow>
   matrixAt a b i j ! i' =
     (if i' < i then map (prefixDist a b i') [0 ..< Suc (length a)]
      else if i' = i then map (prefixDist a b i') [0 ..< j]
      else [i'])"
  unfolding matrixAt_def by (subst nth_map) (simp_all del: upt_Suc add: nth_upt)

lemma upt_top_row: "map (prefixDist a b 0) [0 ..< Suc (length a)] = [0 ..< Suc (length a)]"
  by (rule nth_equalityI) (simp_all del: upt_Suc add: prefixDist_0_top)

lemma initMatrix_eq: "initMatrix a b = matrixAt a b (Suc 0) (Suc 0)"
proof (rule nth_equalityI)
  show "length (initMatrix a b) = length (matrixAt a b (Suc 0) (Suc 0))"
    by (simp add: initMatrix_def matrixAt_def)
next
  fix i' assume "i' < length (initMatrix a b)"
  then have le: "i' \<le> length b" by (simp add: initMatrix_def)
  have "initMatrix a b ! i' = (if i' = 0 then [0 ..< Suc (length a)] else [i'])"
    using le unfolding initMatrix_def
    by (simp del: upt_Suc add: nth_list_update nth_upt)
  also have "\<dots> = matrixAt a b (Suc 0) (Suc 0) ! i'"
    using le
    by (auto simp del: upt_Suc simp add: matrixAt_row upt_top_row map_upt_one
        prefixDist_0_left)
  finally show "initMatrix a b ! i' = matrixAt a b (Suc 0) (Suc 0) ! i'" .
qed

lemma cellValue_matrixAt:
  assumes "1 \<le> i" "i \<le> length b" "1 \<le> j" "j \<le> length a"
  shows "cellValue a b (matrixAt a b i j) i j = prefixDist a b i j"
proof -
  obtain i0 j0 where ij: "i = Suc i0" "j = Suc j0"
    using assms by (metis One_nat_def Suc_le_D)
  have r1: "matrixAt a b i j ! (i - 1) = map (prefixDist a b i0) [0 ..< Suc (length a)]"
    using assms ij by (simp del: upt_Suc add: matrixAt_row)
  have r2: "matrixAt a b i j ! i = map (prefixDist a b i) [0 ..< j]"
    using assms by (simp del: upt_Suc add: matrixAt_row)
  have c1: "matrixAt a b i j ! (i - 1) ! (j - 1) = prefixDist a b i0 j0"
    unfolding r1 using assms ij by (simp del: upt_Suc add: nth_upt)
  have c2: "matrixAt a b i j ! i ! (j - 1) = prefixDist a b i j0"
    unfolding r2 using assms ij by (simp del: upt_Suc add: nth_upt)
  have c3: "matrixAt a b i j ! (i - 1) ! j = prefixDist a b i0 j"
    unfolding r1 using assms ij by (simp del: upt_Suc add: nth_upt)
  show ?thesis
    unfolding cellValue_def c1 c2 c3
    using assms ij prefixDist_Suc [of i0 b j0 a] by simp
qed

lemma setCell_matrixAt:
  assumes "1 \<le> i" "i \<le> length b" "1 \<le> j" "j \<le> length a"
  shows "setCell (matrixAt a b i j) i j (prefixDist a b i j) = matrixAt a b i (Suc j)"
proof (rule nth_equalityI)
  show "length (setCell (matrixAt a b i j) i j (prefixDist a b i j))
          = length (matrixAt a b i (Suc j))"
    by (simp add: setCell_def matrixAt_def)
next
  fix i' assume "i' < length (setCell (matrixAt a b i j) i j (prefixDist a b i j))"
  then have le: "i' \<le> length b" by (simp add: setCell_def matrixAt_def)
  have r2: "matrixAt a b i j ! i = map (prefixDist a b i) [0 ..< j]"
    using assms by (simp del: upt_Suc add: matrixAt_row)
  show "setCell (matrixAt a b i j) i j (prefixDist a b i j) ! i' = matrixAt a b i (Suc j) ! i'"
  proof (cases "i' = i")
    case True
    then show ?thesis
      using assms le r2
      by (simp add: setCell_def nth_list_update length_matrixAt matrixAt_row)
  next
    case False
    then show ?thesis
      using assms le
      by (simp del: upt_Suc add: setCell_def nth_list_update length_matrixAt matrixAt_row)
  qed
qed

lemma matrixAt_row_end:
  assumes "i \<le> length b"
  shows "matrixAt a b i (Suc (length a)) = matrixAt a b (Suc i) (Suc 0)"
proof (rule nth_equalityI)
  show "length (matrixAt a b i (Suc (length a))) = length (matrixAt a b (Suc i) (Suc 0))"
    by (simp add: matrixAt_def)
next
  fix i' assume "i' < length (matrixAt a b i (Suc (length a)))"
  then have le: "i' \<le> length b" by (simp add: matrixAt_def)
  show "matrixAt a b i (Suc (length a)) ! i' = matrixAt a b (Suc i) (Suc 0) ! i'"
    using le assms
    by (auto simp del: upt_Suc simp add: matrixAt_row map_upt_one prefixDist_0_left)
qed

lemma innerLoop_matrixAt:
  assumes "1 \<le> i" "i \<le> length b" "1 \<le> j" "j \<le> Suc (length a)"
  shows "innerLoop a b i j (matrixAt a b i j) = matrixAt a b i (Suc (length a))"
  using assms
proof (induction "Suc (length a) - j" arbitrary: j)
  case 0
  then have "j = Suc (length a)" by simp
  then show ?case by (simp add: innerLoop.simps)
next
  case (Suc d)
  then have j: "j \<le> length a" by simp
  have "innerLoop a b i j (matrixAt a b i j)
          = innerLoop a b i (Suc j) (matrixAt a b i (Suc j))"
    using j Suc.prems
    by (subst innerLoop.simps) (simp add: cellValue_matrixAt setCell_matrixAt)
  also have "\<dots> = matrixAt a b i (Suc (length a))"
    using Suc.hyps(1) [of "Suc j"] Suc.hyps(2) Suc.prems j by simp
  finally show ?case .
qed

lemma outerLoop_matrixAt:
  assumes "1 \<le> i" "i \<le> Suc (length b)"
  shows "outerLoop a b i (matrixAt a b i (Suc 0)) = matrixAt a b (Suc (length b)) (Suc 0)"
  using assms
proof (induction "Suc (length b) - i" arbitrary: i)
  case 0
  then have "i = Suc (length b)" by simp
  then show ?case by (simp add: outerLoop.simps)
next
  case (Suc d)
  then have i: "i \<le> length b" by simp
  have "outerLoop a b i (matrixAt a b i (Suc 0))
          = outerLoop a b (Suc i) (matrixAt a b (Suc i) (Suc 0))"
    using i Suc.prems
    by (subst outerLoop.simps) (simp add: innerLoop_matrixAt matrixAt_row_end)
  also have "\<dots> = matrixAt a b (Suc (length b)) (Suc 0)"
    using Suc.hyps(1) [of "Suc i"] Suc.hyps(2) Suc.prems i by simp
  finally show ?case .
qed

lemma levenshteinDistance_editDistance: "levenshteinDistance a b = editDistance a b"
proof -
  have "levenshteinDistance a b = matrixAt a b (Suc (length b)) (Suc 0) ! length b ! length a"
    by (simp add: levenshteinDistance_def initMatrix_eq outerLoop_matrixAt)
  also have "\<dots> = prefixDist a b (length b) (length a)"
    by (simp del: upt_Suc add: matrixAt_row nth_upt)
  also have "\<dots> = editDistance a b"
    by (simp add: prefixDist_def editDistance_rev)
  finally show ?thesis .
qed

lemma editDistance_le_max: "editDistance xs ys \<le> max (length xs) (length ys)"
  by (induction xs ys rule: editDistance.induct) (auto simp: min_def)

lemma calculateStringSimilarity_eq:
  "calculateStringSimilarity x y
     = (if max (length x) (length y) = 0 then 1
        else (of_nat (max (length x) (length y)) - of_nat (editDistance x y))
             / of_nat (max (length x) (length y)))"
  by (auto simp: calculateStringSimilarity_def levenshteinDistance_editDistance Let_def
      max_def editDistance_sym [of y x])

lemma frac_range:
  fixes n d :: nat
  assumes "d \<le> n" and "0 < n"
  shows "0 \<le> (of_nat n - of_nat d :: rat) / of_nat n
         \<and> (of_nat n - of_nat d :: rat) / of_nat n \<le> 1"
  using assms by (simp add: divide_le_eq_1)

lemma calculateStringSimilarity_range:
  "0 \<le> calculateStringSimilarity x y \<and> calculateStringSimilarity x y \<le> 1"
proof (cases "max (length x) (length y) = 0")
  case True
  then show ?thesis by (simp add: calculateStringSimilarity_eq)
next
  case False
  then have n: "0 < max (length x) (length y)" by blast
  have eq: "calculateStringSimilarity x y
     = (of_nat (max (length x) (length y)) - of_nat (editDistance x y))
             / of_nat (max (length x) (length y))"
    using False by (simp only: calculateStringSimilarity_eq if_False)
  show ?thesis
    unfolding eq by (rule frac_range [OF editDistance_le_max n])
qed

text \<open>
  Claim C6. \<open>calculateStringSimilarity x y\<close> is \<open>(maxLen - editDistance) / maxLen\<close>,
  where \<open>maxLen\<close> is the length of the longer string and \<open>editDistance\<close> the
  Levenshtein distance of \<open>x\<close> and \<open>y\<close>, and it is 1 when both strings are empty
  (\<open>maxLen = 0\<close>); it is 1 on two equal strings; and on \<open>kitten\<close> and \<open>sitting\<close>,
  whose distance is 3, it is \<open>(7 - 3) / 7\<close>.
\<close>

theorem stringSimilarity_formula:
  "calculateStringSimilarity x y
     = (if max (length x) (length y) = 0 then 1
        else (of_nat (max (length x) (length y)) - of_nat (editDistance x y))
             / of_nat (max (length x) (length y)))
   \<and> calculateStringSimilarity [] [] = 1
   \<and> calculateStringSimilarity x x = 1
   \<and> editDistance ''kitten'' ''sitting'' = 3
   \<and> calculateStringSimilarity ''kitten'' ''sitting'' = (7 - 3) / 7"
proof -
  have k: "editDistance ''kitten'' ''sitting'' = 3"
    by code_simp
  show ?thesis
    using calculateStringSimilarity_eq [of x y] calculateStringSimilarity_eq [of "[]" "[]"]
      calculateStringSimilarity_eq [of x x]
      calculateStringSimilarity_eq [of "''kitten''" "''sitting''"] k
    by simp
qed



section \<open>Similarity scores\<close>

lemma semantic_range:
  "0 \<le> calculateSimilarityScore a b Semantic \<and> calculateSimilarityScore a b Semantic \<le> 1"
proof -
  have "0 \<le> calculateStringSimilarity (c_name a) (c_name b)"
    using calculateStringSimilarity_range by blast
  then show ?thesis
    by (simp add: calculateSemanticSimilarity_def Let_def)
qed

lemma visual_range:
  "0 \<le> calculateSimilarityScore a b Visual \<and> calculateSimilarityScore a b Visual \<le> 1"
  by (simp add: calculateVisualSimilarity_def Let_def divide_le_eq_1)

text \<open>
  In the mode \<open>usage\<close> the score is in \<open>[0, 1]\<close> when the first component lists no
  context twice.
\<close>

lemma usage_range_distinct:
  assumes "distinct (c_usedIn a)"
  shows "0 \<le> calculateSimilarityScore a b Usage \<and> calculateSimilarityScore a b Usage \<le> 1"
proof -
  have "length (filter (\<lambda>context. context \<in> set (c_usedIn b)) (c_usedIn a))
          \<le> length (c_usedIn a)"
    by simp
  also have "\<dots> = card (set (c_usedIn a))"
    using assms by (simp add: distinct_card)
  also have "\<dots> \<le> card (set (c_usedIn a @ c_usedIn b))"
    by (rule card_mono) auto
  also have "\<dots> = length (remdups (c_usedIn a @ c_usedIn b))"
    by (simp add: length_remdups_card_conv)
  finally show ?thesis
    by (simp add: calculateUsageSimilarity_def Let_def divide_le_eq_1)
qed

text \<open>
  Claim C8 at a pair of components where the code leaves the interval: \<open>navbarTwice\<close>
  lists the page \<open>src_pages_Home\<close> twice in \<open>usedIn\<close> and \<open>sidebarOnce\<close> lists it
  once. The filter counts two common contexts, the set of all contexts has one element,
  and the \<open>usage\<close> similarity is \<open>2 / 1 = 2\<close>.
\<close>

theorem usage_similarity_above_one:
  "calculateSimilarityScore navbarTwice sidebarOnce Usage = 2"
  by code_simp


section \<open>Properties of the correlator\<close>

subsection \<open>Responsive issues\<close>

lemma searchComponents_first_positive:
  assumes "searchComponents idx q = r # rs"
  shows "0 < relevanceScore r"
proof -
  have "r \<in> set (searchComponents idx q)" using assms by simp
  then show ?thesis
    by (auto simp: searchComponents_def set_arraySort collectResults_eq)
qed

lemma natToString_30: "natToString 30 = ''30''"
  by code_simp

lemma parseInt_undefined: "parseInt None = None"
  by code_simp

lemma parseInt_empty: "parseInt (Some []) = None"
  by code_simp

text \<open>
  Claim C9. For an element whose bounds are 30 wide and 30 high, whose styles carry no
  font size (\<open>fontSize\<close> is missing or empty), and whose colour and background colour
  are not an equal pair, \<open>analyzeResponsiveIssues\<close> returns the one string
  \<open>Touch target too small: 30x30px (minimum 44x44px)\<close>, and that is the
  \<open>responsiveIssues\<close> of the element's correlation, with or without an index.
\<close>

theorem touch_target_30:
  assumes "bb_width (ve_bounds element) = 30" and "bb_height (ve_bounds element) = 30"
    and "es_fontSize (ve_styles element) = None \<or> es_fontSize (ve_styles element) = Some []"
    and "\<not> (truthyStr (es_color (ve_styles element))
            \<and> es_color (ve_styles element) = es_backgroundColor (ve_styles element))"
  shows "analyzeResponsiveIssues element
           = [''Touch target too small: 30x30px (minimum 44x44px)'']
         \<and> responsiveIssues (correlateElement projectIndex element)
           = [''Touch target too small: 30x30px (minimum 44x44px)'']"
proof -
  have p: "parseInt (es_fontSize (ve_styles element)) = None"
    using assms(3) parseInt_undefined parseInt_empty by auto
  have a: "analyzeResponsiveIssues element
           = [''Touch target too small: 30x30px (minimum 44x44px)'']"
    using assms(4)
    by (auto simp: analyzeResponsiveIssues_def Let_def assms(1,2) p numberToString_def
        natToString_30)
  then show ?thesis
    by (simp add: correlateElement_def Let_def)
qed

text \<open>The theorem at a link of 30 by 30 pixels with no styles recorded.\<close>

theorem touch_target_30_witness:
  "bb_width (ve_bounds smallElement) = 30 \<and> bb_height (ve_bounds smallElement) = 30
   \<and> es_fontSize (ve_styles smallElement) = None
   \<and> es_color (ve_styles smallElement) = None
   \<and> analyzeResponsiveIssues smallElement
       = [''Touch target too small: 30x30px (minimum 44x44px)'']
   \<and> responsiveIssues (correlateElement (Some priceIndex) smallElement)
       = [''Touch target too small: 30x30px (minimum 44x44px)'']"
proof -
  have w: "bb_width (ve_bounds smallElement) = 30"
    and h: "bb_height (ve_bounds smallElement) = 30"
    and f: "es_fontSize (ve_styles smallElement) = None"
    and c: "es_color (ve_styles smallElement) = None"
    by (simp_all add: smallElement_def plainElement_def)
  have f': "es_fontSize (ve_styles smallElement) = None
            \<or> es_fontSize (ve_styles smallElement) = Some []"
    using f by simp
  have c': "\<not> (truthyStr (es_color (ve_styles smallElement))
            \<and> es_color (ve_styles smallElement) = es_backgroundColor (ve_styles smallElement))"
    using c by simp
  show ?thesis
    using touch_target_30 [OF w h f' c', of "Some priceIndex"] w h f c by simp
qed

subsection \<open>Confidence\<close>

lemma conf_bounds:
  fixes s :: int and d cap :: rat
  assumes "0 < s" and "0 < d" and "0 < cap" and "cap \<le> 9 / 10"
  shows "0 < min (of_int s / d) cap \<and> min (of_int s / d) cap \<le> 9 / 10"
proof -
  have "0 < (of_int s :: rat) / d"
    using assms(1,2) by simp
  then have "0 < min (of_int s / d) cap"
    using assms(3) by simp
  moreover have "min (of_int s / d) cap \<le> 9 / 10"
    using assms(4) by (rule min.coboundedI2)
  ultimately show ?thesis by blast
qed

lemma textStrategy_inv:
  assumes "0 \<le> conf st \<and> conf st \<le> 9 / 10 \<and> (conf st = 0) = (bestMatch st = None)"
  shows "0 \<le> conf (textStrategy idx element st) \<and> conf (textStrategy idx element st) \<le> 9 / 10
         \<and> (conf (textStrategy idx element st) = 0) = (bestMatch (textStrategy idx element st) = None)"
proof (cases "ve_text element \<noteq> [] \<and> length (ve_text element) > 2")
  case False
  then show ?thesis using assms by (auto simp: textStrategy_def)
next
  case True
  show ?thesis
  proof (cases "searchComponents idx (anyTextQuery (ve_text element))")
    case Nil
    then show ?thesis using assms True by (auto simp: textStrategy_def)
  next
    case (Cons r rs)
    from conf_bounds [OF searchComponents_first_positive [OF Cons], of 20 "8 / 10"]
    have "0 < min (of_int (relevanceScore r) / 20) (8 / 10 :: rat)
          \<and> min (of_int (relevanceScore r) / 20) (8 / 10 :: rat) \<le> 9 / 10"
      by simp
    then show ?thesis using True Cons by (auto simp: textStrategy_def)
  qed
qed

lemma typeStrategy_inv:
  assumes "0 \<le> conf st \<and> conf st \<le> 9 / 10 \<and> (conf st = 0) = (bestMatch st = None)"
  shows "0 \<le> conf (typeStrategy idx element st) \<and> conf (typeStrategy idx element st) \<le> 9 / 10
         \<and> (conf (typeStrategy idx element st) = 0) = (bestMatch (typeStrategy idx element st) = None)"
proof (cases "searchComponents idx (buildTypeQuery element)")
  case Nil
  then show ?thesis using assms by (auto simp: typeStrategy_def Let_def)
next
  case (Cons r rs)
  from conf_bounds [OF searchComponents_first_positive [OF Cons], of 15 "9 / 10"]
  have "0 < min (of_int (relevanceScore r) / 15) (9 / 10 :: rat)
        \<and> min (of_int (relevanceScore r) / 15) (9 / 10 :: rat) \<le> 9 / 10"
    by simp
  then show ?thesis using assms Cons by (auto simp: typeStrategy_def Let_def)
qed

lemma classLoop_inv:
  assumes "0 \<le> conf st \<and> conf st \<le> 9 / 10 \<and> (conf st = 0) = (bestMatch st = None)"
  shows "0 \<le> conf (classLoop idx classNames st) \<and> conf (classLoop idx classNames st) \<le> 9 / 10
         \<and> (conf (classLoop idx classNames st) = 0) = (bestMatch (classLoop idx classNames st) = None)"
  using assms
proof (induction classNames arbitrary: st)
  case Nil
  then show ?case by simp
next
  case (Cons className classNames)
  let ?st' = "case searchComponents idx (anyTextQuery className) of
          [] \<Rightarrow> st
        | first # _ \<Rightarrow>
            if relevanceScore first > 3
            then (if bestMatch st = None \<or> of_int (relevanceScore first) > conf st * 15
                  then \<lparr> bestMatch = Some (component first),
                         conf = min (of_int (relevanceScore first) / 12) (7 / 10),
                         reason = ''Matched by CSS class: '' @ [CHR 0x22] @ className
                                  @ [CHR 0x22] \<rparr>
                  else st)
            else st"
  have "0 \<le> conf ?st' \<and> conf ?st' \<le> 9 / 10 \<and> (conf ?st' = 0) = (bestMatch ?st' = None)"
  proof (cases "searchComponents idx (anyTextQuery className)")
    case Nil
    then show ?thesis using Cons.prems by simp
  next
    case c: (Cons r rs)
    from conf_bounds [OF searchComponents_first_positive [OF c], of 12 "7 / 10"]
    have "0 < min (of_int (relevanceScore r) / 12) (7 / 10 :: rat)
        \<and> min (of_int (relevanceScore r) / 12) (7 / 10 :: rat) \<le> 9 / 10"
      by simp
    then show ?thesis using Cons.prems c by auto
  qed
  from Cons.IH [OF this] show ?case by simp
qed

lemma classStrategy_inv:
  assumes "0 \<le> conf st \<and> conf st \<le> 9 / 10 \<and> (conf st = 0) = (bestMatch st = None)"
  shows "0 \<le> conf (classStrategy idx element st) \<and> conf (classStrategy idx element st) \<le> 9 / 10
         \<and> (conf (classStrategy idx element st) = 0) = (bestMatch (classStrategy idx element st) = None)"
  using classLoop_inv [OF assms] assms by (simp add: classStrategy_def)

lemma strategies_inv:
  "0 \<le> conf (classStrategy idx element (typeStrategy idx element (textStrategy idx element
         \<lparr> bestMatch = None, conf = 0, reason = [] \<rparr>)))
   \<and> conf (classStrategy idx element (typeStrategy idx element (textStrategy idx element
         \<lparr> bestMatch = None, conf = 0, reason = [] \<rparr>))) \<le> 9 / 10
   \<and> (conf (classStrategy idx element (typeStrategy idx element (textStrategy idx element
         \<lparr> bestMatch = None, conf = 0, reason = [] \<rparr>))) = 0)
     = (bestMatch (classStrategy idx element (typeStrategy idx element (textStrategy idx element
         \<lparr> bestMatch = None, conf = 0, reason = [] \<rparr>))) = None)"
  by (rule classStrategy_inv, rule typeStrategy_inv, rule textStrategy_inv) simp

lemma findComponentMatch_range:
  "0 \<le> confidence (findComponentMatch projectIndex element)
   \<and> confidence (findComponentMatch projectIndex element) \<le> 9 / 10
   \<and> (confidence (findComponentMatch projectIndex element) = 0)
       = (sourceComponent (findComponentMatch projectIndex element) = None)"
proof (cases projectIndex)
  case None
  then show ?thesis by (simp add: findComponentMatch_def)
next
  case (Some idx)
  then show ?thesis
    using strategies_inv [of idx element] by (simp add: findComponentMatch_def Let_def)
qed

lemma correlateElement_match:
  "confidence (correlateElement projectIndex element)
     = confidence (findComponentMatch projectIndex element)
   \<and> sourceComponent (correlateElement projectIndex element)
     = sourceComponent (findComponentMatch projectIndex element)"
  by (cases projectIndex) (simp_all add: correlateElement_def findComponentMatch_def Let_def)

lemma text_top_16:
  assumes "2 < length (ve_text element)"
    and "searchComponents idx (anyTextQuery (ve_text element)) = r # rs"
    and "relevanceScore r = 16"
  shows "confidence (findComponentMatch (Some idx) element) = min (16 / 20) (8 / 10)
         \<and> confidence (findComponentMatch (Some idx) element) = 8 / 10
         \<and> sourceComponent (findComponentMatch (Some idx) element) = Some (component r)"
proof -
  have ne: "ve_text element \<noteq> []" using assms(1) by auto
  have t: "textStrategy idx element \<lparr> bestMatch = None, conf = 0, reason = [] \<rparr>
         = \<lparr> bestMatch = Some (component r), conf = 8 / 10,
             reason = ''Matched by text content: '' @ [CHR 0x22] @ ve_text element
                      @ [CHR 0x22] \<rparr>"
    using assms ne by (simp add: textStrategy_def)
  show ?thesis
    by (simp add: findComponentMatch_def Let_def t typeStrategy_def classStrategy_def)
qed

text \<open>
  Claim C3. For every element and every index, loaded or not, the confidence of the
  correlation that \<open>findComponentMatch\<close> produces, which is the confidence of the
  element's entry in the result of \<open>correlateElementsWithComponents\<close>, is in
  \<open>[0, 0.9]\<close>, and it is 0 exactly when \<open>sourceComponent\<close> is \<open>null\<close>. When the
  element's text is longer than 2 characters and the first result of the text search has
  the score 16, the confidence is \<open>min (16 / 20) 0.8 = 0.8\<close> and the source component is
  that result's component.
\<close>

theorem correlation_confidence:
  "0 \<le> confidence (findComponentMatch projectIndex element)
   \<and> confidence (findComponentMatch projectIndex element) \<le> 9 / 10
   \<and> (confidence (findComponentMatch projectIndex element) = 0)
       = (sourceComponent (findComponentMatch projectIndex element) = None)
   \<and> 0 \<le> confidence (correlateElement projectIndex element)
   \<and> confidence (correlateElement projectIndex element) \<le> 9 / 10
   \<and> (confidence (correlateElement projectIndex element) = 0)
       = (sourceComponent (correlateElement projectIndex element) = None)
   \<and> (2 < length (ve_text element)
        \<and> searchComponents idx (anyTextQuery (ve_text element)) = r # rs
        \<and> relevanceScore r = 16
       \<longrightarrow> confidence (findComponentMatch (Some idx) element) = min (16 / 20) (8 / 10)
           \<and> confidence (findComponentMatch (Some idx) element) = 8 / 10
           \<and> sourceComponent (findComponentMatch (Some idx) element) = Some (component r))"
  using findComponentMatch_range [of projectIndex element]
    correlateElement_match [of projectIndex element] text_top_16 [of element idx r rs]
  by simp

lemma priceIndex_text_search:
  "searchComponents priceIndex (anyTextQuery (ve_text priceElement))
     = [\<lparr> component = priceTag, relevanceScore = 16,
          matches = findMatches priceTag (anyTextQuery ''Price'') \<rparr>]"
  by code_simp

text \<open>
  The theorem at the element with the text \<open>Price\<close> and the index that holds
  \<open>PriceTag\<close>, whose name and two props contain the text: the score is 10 + 3 + 3 = 16.
\<close>

theorem correlation_confidence_witness:
  "2 < length (ve_text priceElement)
   \<and> map relevanceScore (searchComponents priceIndex (anyTextQuery (ve_text priceElement)))
       = [16]
   \<and> confidence (findComponentMatch (Some priceIndex) priceElement) = 8 / 10
   \<and> sourceComponent (findComponentMatch (Some priceIndex) priceElement) = Some priceTag"
proof -
  have l: "2 < length (ve_text priceElement)"
    by (simp add: priceElement_def plainElement_def)
  show ?thesis
    using correlation_confidence [of "Some priceIndex" priceElement priceIndex
        "\<lparr> component = priceTag, relevanceScore = 16,
           matches = findMatches priceTag (anyTextQuery ''Price'') \<rparr>" "[]"]
      l priceIndex_text_search
    by simp
qed


section \<open>The usage graph\<close>

lemma seedLoop_other: "cid \<notin> c_id ` set cs \<Longrightarrow> seedLoop k cs g cid = g cid"
  by (induction cs arbitrary: k g) auto

lemma seedLoop_nth:
  "distinct (map c_id cs) \<Longrightarrow> j < length cs \<Longrightarrow>
   seedLoop k cs g (c_id (cs ! j)) = Some (UsedInOf (k + j))"
proof (induction cs arbitrary: k g j)
  case Nil
  then show ?case by simp
next
  case (Cons c cs)
  show ?case
  proof (cases j)
    case 0
    then show ?thesis using Cons.prems by (simp add: seedLoop_other)
  next
    case (Suc j')
    then show ?thesis using Cons.prems Cons.IH [of j' "Suc k"] by simp
  qed
qed

lemma length_withUsedIn:
  "length arrays = length comps \<Longrightarrow> length (withUsedIn comps arrays) = length comps"
  by (simp add: withUsedIn_def)

lemma nth_withUsedIn:
  "length arrays = length comps \<Longrightarrow> k < length comps \<Longrightarrow>
   withUsedIn comps arrays ! k = (comps ! k) \<lparr> c_usedIn := arrays ! k \<rparr>"
  by (simp add: withUsedIn_def)

lemma withUsedIn_same: "withUsedIn comps (map c_usedIn comps) = comps"
  by (induction comps) (simp_all add: withUsedIn_def)

lemma withUsedIn_update:
  "length arrays = length comps \<Longrightarrow> k < length comps \<Longrightarrow>
   (withUsedIn comps arrays) [k := (withUsedIn comps arrays ! k) \<lparr> c_usedIn := u \<rparr>]
     = withUsedIn comps (arrays [k := u])"
  by (rule nth_equalityI) (auto simp: length_withUsedIn nth_withUsedIn nth_list_update)

lemma firstWithName_Some:
  "firstWithName n comps = Some k \<Longrightarrow>
   k < length comps \<and> c_name (comps ! k) = n \<and> (\<forall>j < k. c_name (comps ! j) \<noteq> n)"
proof (induction comps arbitrary: k)
  case Nil
  then show ?case by simp
next
  case (Cons c cs)
  show ?case
  proof (cases "c_name c = n")
    case True
    then show ?thesis using Cons.prems by simp
  next
    case False
    then obtain k' where k': "firstWithName n cs = Some k'" "k = Suc k'"
      using Cons.prems by auto
    from Cons.IH [OF k'(1)] False k'(2) show ?thesis
      by (auto simp: less_Suc_eq_0_disj)
  qed
qed

lemma find_withUsedIn:
  "length arrays = length comps \<Longrightarrow>
   find (\<lambda>c. c_name c = n) (withUsedIn comps arrays)
     = map_option (\<lambda>k. withUsedIn comps arrays ! k) (firstWithName n comps)"
proof (induction comps arbitrary: arrays)
  case Nil
  then show ?case by (simp add: withUsedIn_def)
next
  case (Cons c cs)
  then obtain u us where arrays: "arrays = u # us" "length us = length cs"
    by (cases arrays) auto
  have w: "withUsedIn (c # cs) (u # us) = c \<lparr> c_usedIn := u \<rparr> # withUsedIn cs us"
    by (simp add: withUsedIn_def)
  show ?case
    unfolding arrays(1) w using Cons.IH [OF arrays(2)]
    by (cases "firstWithName n cs") (auto simp: option.map_comp comp_def)
qed

lemma find_firstWithName:
  "find (\<lambda>c. c_name c = n) comps = map_option (\<lambda>k. comps ! k) (firstWithName n comps)"
  using find_withUsedIn [of "map c_usedIn comps" comps n] by (simp add: withUsedIn_same)

lemma usageState_initial:
  "\<lparr> us_index = idx, us_fresh = [], us_graph = seedLoop 0 (components idx) Map.empty \<rparr>
     = usageState idx (map c_usedIn (components idx))"
  by (simp add: usageState_def withUsedIn_same)

lemma length_usageStep: "length (usageStep comps pn arrays) = length arrays"
  by (simp add: usageStep_def split: option.splits)

text \<open>
  One pass of the inner loop, on an index with distinct identifiers: the identifier of the
  first component with the name has an entry, which is that component's own array, and the
  page identifier is pushed to it unless it is there.
\<close>

lemma recordUsage_usageState:
  assumes d: "distinct (map c_id (components idx))"
    and l: "length arrays = length (components idx)"
  shows "recordUsage pageId n (usageState idx arrays)
           = usageState idx (usageStep (components idx) (pageId, n) arrays)"
proof (cases "firstWithName n (components idx)")
  case None
  then show ?thesis
    using l by (simp add: recordUsage_def usageState_def find_withUsedIn usageStep_def)
next
  case (Some k)
  from firstWithName_Some [OF Some] have k: "k < length (components idx)" by blast
  let ?found = "(components idx ! k) \<lparr> c_usedIn := arrays ! k \<rparr>"
  have f: "find (\<lambda>c. c_name c = n) (components (us_index (usageState idx arrays)))
             = Some ?found"
    using l k Some by (simp add: usageState_def find_withUsedIn nth_withUsedIn)
  have g: "us_graph (usageState idx arrays) (c_id (components idx ! k)) = Some (UsedInOf k)"
    using seedLoop_nth [OF d k, of 0 Map.empty] by (simp add: usageState_def)
  have r: "readArray (usageState idx arrays) (UsedInOf k) = arrays ! k"
    using l k by (simp add: usageState_def nth_withUsedIn)
  show ?thesis
  proof (cases "pageId \<in> set (arrays ! k)")
    case True
    then show ?thesis
      unfolding recordUsage_def f
      by (simp add: g r Let_def usageStep_def Some pushUnlessPresent_def
          del: readArray.simps pushArray.simps)
  next
    case False
    have p: "pushArray (usageState idx arrays) (UsedInOf k) pageId
               = usageState idx (arrays [k := arrays ! k @ [pageId]])"
      using l k withUsedIn_update [OF l k, of "arrays ! k @ [pageId]"]
      by (simp add: usageState_def nth_withUsedIn)
    have u: "(us_graph (usageState idx arrays)) (c_id (components idx ! k) \<mapsto> UsedInOf k)
             = us_graph (usageState idx arrays)"
      using g by (rule map_upd_triv)
    have "(usageState idx (arrays [k := arrays ! k @ [pageId]]))
             \<lparr> us_graph := us_graph (usageState idx arrays) \<rparr>
          = usageState idx (arrays [k := arrays ! k @ [pageId]])"
      by (simp add: usageState_def)
    then show ?thesis
      using False unfolding recordUsage_def f
      by (simp add: g r Let_def p u usageStep_def Some pushUnlessPresent_def
          del: readArray.simps pushArray.simps)
  qed
qed

lemma namesLoop_usageState:
  assumes d: "distinct (map c_id (components idx))"
  shows "length arrays = length (components idx) \<Longrightarrow>
         namesLoop pageId ns (usageState idx arrays)
           = usageState idx (fold (usageStep (components idx)) (map (\<lambda>n. (pageId, n)) ns) arrays)"
proof (induction ns arbitrary: arrays)
  case Nil
  then show ?case by simp
next
  case (Cons n ns)
  then show ?case
    by (simp add: recordUsage_usageState [OF d] length_usageStep)
qed

lemma length_fold_usageStep: "length (fold (usageStep comps) refs arrays) = length arrays"
  by (induction refs arbitrary: arrays) (simp_all add: length_usageStep)

lemma pagesLoop_usageState:
  assumes d: "distinct (map c_id (components idx))"
  shows "length arrays = length (components idx) \<Longrightarrow>
         pagesLoop pgs (usageState idx arrays)
           = usageState idx (fold (usageStep (components idx)) (pageReferences pgs) arrays)"
proof (induction pgs arbitrary: arrays)
  case Nil
  then show ?case by (simp add: pageReferences_def)
next
  case (Cons p pgs)
  then show ?case
    by (simp add: namesLoop_usageState [OF d] length_fold_usageStep pageReferences_def)
qed

lemma fold_usageStep_nth:
  "k < length arrays \<Longrightarrow>
   fold (usageStep comps) refs arrays ! k
     = fold pushUnlessPresent
         (map fst (filter (\<lambda>pn. firstWithName (snd pn) comps = Some k) refs)) (arrays ! k)"
proof (induction refs arbitrary: arrays)
  case Nil
  then show ?case by simp
next
  case (Cons pn refs)
  have "k < length (usageStep comps pn arrays)"
    using Cons.prems by (simp add: length_usageStep)
  from Cons.IH [OF this] show ?case
    using Cons.prems
    by (auto simp: usageStep_def nth_list_update split: option.splits)
qed

lemma fold_pushUnlessPresent:
  "\<exists>extra. fold pushUnlessPresent pids arr = arr @ extra \<and> distinct extra
           \<and> set extra = set pids - set arr"
proof (induction pids arbitrary: arr)
  case Nil
  then show ?case by simp
next
  case (Cons p pids)
  obtain extra where e: "fold pushUnlessPresent pids (pushUnlessPresent p arr)
      = pushUnlessPresent p arr @ extra" "distinct extra"
      "set extra = set pids - set (pushUnlessPresent p arr)"
    using Cons.IH [of "pushUnlessPresent p arr"] by blast
  show ?case
  proof (cases "p \<in> set arr")
    case True
    then have pp: "pushUnlessPresent p arr = arr"
      by (simp add: pushUnlessPresent_def)
    have "fold pushUnlessPresent (p # pids) arr = arr @ extra"
      "set extra = set (p # pids) - set arr"
      using e True by (auto simp: pp)
    with e(2) show ?thesis by blast
  next
    case False
    then have pp: "pushUnlessPresent p arr = arr @ [p]"
      by (simp add: pushUnlessPresent_def)
    have "fold pushUnlessPresent (p # pids) arr = arr @ (p # extra)"
      "distinct (p # extra)" "set (p # extra) = set (p # pids) - set arr"
      using e False by (auto simp: pp)
    then show ?thesis by blast
  qed
qed

lemma set_pageReferences:
  "set (pageReferences pgs) = {(p_id p, n) | p n. p \<in> set pgs \<and> n \<in> set (p_components p)}"
  by (auto simp: pageReferences_def)

lemma getComponentUsageGraph_usageState:
  assumes d: "distinct (map c_id (components idx))"
  shows "getComponentUsageGraph idx =
     (\<lambda>cid. map_option
               (readArray (usageState idx (fold (usageStep (components idx))
                    (pageReferences (pages idx)) (map c_usedIn (components idx)))))
               (seedLoop 0 (components idx) Map.empty cid),
      idx \<lparr> components := withUsedIn (components idx)
               (fold (usageStep (components idx)) (pageReferences (pages idx))
                  (map c_usedIn (components idx))) \<rparr>)"
  unfolding getComponentUsageGraph_def usageState_initial Let_def
  by (simp add: pagesLoop_usageState [OF d]) (simp add: usageState_def)

lemma first_iff:
  assumes d: "distinct (map c_id comps)" and k: "k < length comps"
  shows "(find (\<lambda>c'. c_name c' = c_name (comps ! k)) comps = Some (comps ! k))
           = (firstWithName (c_name (comps ! k)) comps = Some k)"
proof
  assume "find (\<lambda>c'. c_name c' = c_name (comps ! k)) comps = Some (comps ! k)"
  then obtain k' where k': "firstWithName (c_name (comps ! k)) comps = Some k'"
    "comps ! k' = comps ! k"
    by (auto simp: find_firstWithName)
  have "k' < length comps" using firstWithName_Some [OF k'(1)] by blast
  moreover have "distinct comps" using d by (simp add: distinct_map)
  ultimately have "k' = k" using k k'(2) by (simp add: nth_eq_iff_index_eq)
  then show "firstWithName (c_name (comps ! k)) comps = Some k" using k'(1) by simp
next
  assume "firstWithName (c_name (comps ! k)) comps = Some k"
  then show "find (\<lambda>c'. c_name c' = c_name (comps ! k)) comps = Some (comps ! k)"
    by (simp add: find_firstWithName)
qed

lemma pushed_pages:
  assumes k: "k < length comps"
  shows "set (map fst (filter (\<lambda>pn. firstWithName (snd pn) comps = Some k) (pageReferences pgs)))
     = (if firstWithName (c_name (comps ! k)) comps = Some k
        then set (map p_id (filter (\<lambda>p. c_name (comps ! k) \<in> set (p_components p)) pgs))
        else {})"
proof -
  let ?N = "c_name (comps ! k)"
  have eq: "(firstWithName (snd pn) comps = Some k)
              = (snd pn = ?N \<and> firstWithName ?N comps = Some k)" for pn :: "string \<times> string"
    using firstWithName_Some [of "snd pn" comps k] by auto
  show ?thesis
  proof (cases "firstWithName ?N comps = Some k")
    case True
    have "fst ` {pn \<in> set (pageReferences pgs). snd pn = ?N}
            = p_id ` {p \<in> set pgs. ?N \<in> set (p_components p)}" (is "?L = ?R")
    proof (rule set_eqI)
      fix x
      show "x \<in> ?L \<longleftrightarrow> x \<in> ?R"
      proof
        assume "x \<in> ?L"
        then obtain pn where "pn \<in> set (pageReferences pgs)" "snd pn = ?N" "x = fst pn"
          by auto
        then obtain p where "p \<in> set pgs" "?N \<in> set (p_components p)" "x = p_id p"
          unfolding set_pageReferences by auto
        then show "x \<in> ?R" by simp
      next
        assume "x \<in> ?R"
        then obtain p where "p \<in> set pgs" "?N \<in> set (p_components p)" "x = p_id p"
          by auto
        then have "(x, ?N) \<in> set (pageReferences pgs)"
          unfolding set_pageReferences by blast
        then show "x \<in> ?L" by force
      qed
    qed
    then show ?thesis using True by (simp add: eq)
  next
    case False
    then show ?thesis by (simp add: eq)
  qed
qed

text \<open>
  Claim C5, as the code has it. On an index whose component identifiers are distinct,
  the map that \<open>getComponentUsageGraph\<close> returns has, at the identifier of every
  component, the component's own \<open>usedIn\<close> contexts followed by page identifiers, each
  once and none of them already in \<open>usedIn\<close>. These are the identifiers of the pages
  whose component lists contain the component's name when the component is the first one
  of \<open>index.components\<close> with that name (the one that \<open>find\<close> returns for the name), and
  none otherwise.
\<close>

theorem usageGraph_entries:
  assumes d: "distinct (map c_id (components idx))" and c: "c \<in> set (components idx)"
  shows "\<exists>extra.
           fst (getComponentUsageGraph idx) (c_id c) = Some (c_usedIn c @ extra)
         \<and> distinct extra
         \<and> set extra =
             (if find (\<lambda>c'. c_name c' = c_name c) (components idx) = Some c
              then set (map p_id (filter (\<lambda>p. c_name c \<in> set (p_components p)) (pages idx)))
                   - set (c_usedIn c)
              else {})"
proof -
  let ?comps = "components idx"
  let ?final = "fold (usageStep ?comps) (pageReferences (pages idx)) (map c_usedIn ?comps)"
  obtain k where k: "k < length ?comps" "c = ?comps ! k"
    using c by (auto simp: in_set_conv_nth)
  have l: "length ?final = length ?comps"
    by (simp add: length_fold_usageStep)
  have g: "seedLoop 0 ?comps Map.empty (c_id c) = Some (UsedInOf k)"
    using seedLoop_nth [OF d k(1), of 0 Map.empty] k(2) by simp
  have r: "readArray (usageState idx ?final) (UsedInOf k) = ?final ! k"
    using l k(1) by (simp add: usageState_def nth_withUsedIn)
  have res: "fst (getComponentUsageGraph idx) (c_id c) = Some (?final ! k)"
    by (simp add: getComponentUsageGraph_usageState [OF d] g r del: readArray.simps)
  let ?pids = "map fst (filter (\<lambda>pn. firstWithName (snd pn) ?comps = Some k)
                              (pageReferences (pages idx)))"
  have f: "?final ! k = fold pushUnlessPresent ?pids (c_usedIn c)"
    using fold_usageStep_nth [of k "map c_usedIn ?comps" ?comps "pageReferences (pages idx)"]
      k by simp
  obtain extra where e: "fold pushUnlessPresent ?pids (c_usedIn c) = c_usedIn c @ extra"
    "distinct extra" "set extra = set ?pids - set (c_usedIn c)"
    using fold_pushUnlessPresent [of ?pids "c_usedIn c"] by blast
  have "set extra =
             (if find (\<lambda>c'. c_name c' = c_name c) ?comps = Some c
              then set (map p_id (filter (\<lambda>p. c_name c \<in> set (p_components p)) (pages idx)))
                   - set (c_usedIn c)
              else {})"
    unfolding e(3) pushed_pages [OF k(1)] k(2) first_iff [OF d k(1)] by simp
  with res f e(1,2) show ?thesis by auto
qed

lemma buttonsIndex_facts:
  "distinct (map c_id (components buttonsIndex))"
  "uiButton \<in> set (components buttonsIndex)"
  "find (\<lambda>c'. c_name c' = c_name uiButton) (components buttonsIndex) = Some uiButton"
  "map p_id (filter (\<lambda>p. c_name uiButton \<in> set (p_components p)) (pages buttonsIndex))
     = [''src_pages_Home'']"
  "c_usedIn uiButton = []"
  by code_simp+

text \<open>
  The theorem at the index with two components named \<open>Button\<close> and the page \<open>Home\<close>
  that uses \<open>Button\<close>, for the first of the two.
\<close>

theorem usageGraph_entries_witness:
  "distinct (map c_id (components buttonsIndex))
   \<and> uiButton \<in> set (components buttonsIndex)
   \<and> (\<exists>extra. fst (getComponentUsageGraph buttonsIndex) (c_id uiButton) = Some extra
               \<and> distinct extra \<and> set extra = {''src_pages_Home''})"
  using usageGraph_entries [OF buttonsIndex_facts(1,2)] buttonsIndex_facts
  by simp

text \<open>
  Claim C5 as it is written fails at that index. The page \<open>Home\<close> lists the name
  \<open>Button\<close>, which is the name of \<open>formsButton\<close>, and the entry of \<open>formsButton\<close> in
  the returned map is empty; and the call changes the index: before it no component has
  a context in \<open>usedIn\<close>, after it the first component has the page's identifier there,
  pushed through the array that the map shares with the component.
\<close>

theorem usageGraph_counterexample:
  "c_name formsButton = ''Button''
   \<and> formsButton \<in> set (components buttonsIndex)
   \<and> homePage \<in> set (pages buttonsIndex)
   \<and> ''Button'' \<in> set (p_components homePage)
   \<and> fst (getComponentUsageGraph buttonsIndex) (c_id formsButton) = Some []
   \<and> map c_usedIn (components buttonsIndex) = [[], []]
   \<and> map c_usedIn (components (snd (getComponentUsageGraph buttonsIndex)))
       = [[''src_pages_Home''], []]
   \<and> snd (getComponentUsageGraph buttonsIndex) \<noteq> buttonsIndex"
  by code_simp


section \<open>Saving and loading the index\<close>

text \<open>
  On a value without \<open>undefined\<close>, \<open>JSON.stringify\<close> returns a document, and
  \<open>JSON.parse\<close> of it is the value with every \<open>Date\<close> replaced by its ISO string.
\<close>

lemma roundtrip_values:
  "defined v \<Longrightarrow> \<exists>j. stringify v = Some j \<and> parseValue j = datesToISO v"
  "definedElements vs \<Longrightarrow> parseElements (stringifyElements vs) = datesToISOElements vs"
  "definedProperties kvs \<Longrightarrow> parseProperties (stringifyProperties kvs) = datesToISOProperties kvs"
  by (induction v and vs and kvs rule: stringify_stringifyElements_stringifyProperties.induct)
     auto

lemma plain_strings:
  "definedElements (map VStr xs)" "datesToISOElements (map VStr xs) = map VStr xs"
  by (induction xs) simp_all

lemma plain_numbers:
  "definedElements (map VNum xs)" "datesToISOElements (map VNum xs) = map VNum xs"
  by (induction xs) simp_all

lemma plain_valueOfStrings:
  "defined (valueOfStrings xs)" "datesToISO (valueOfStrings xs) = valueOfStrings xs"
  by (simp_all add: valueOfStrings_def plain_strings)

lemma plain_valueOfNumbers:
  "defined (valueOfNumbers xs)" "datesToISO (valueOfNumbers xs) = valueOfNumbers xs"
  by (simp_all add: valueOfNumbers_def plain_numbers)

lemma plain_optional_strings:
  "definedProperties (optionalProp k VStr x)"
  "datesToISOProperties (optionalProp k VStr x) = optionalProp k VStr x"
  by (cases x; simp)+

lemma definedProperties_append:
  "definedProperties (xs @ ys) = (definedProperties xs \<and> definedProperties ys)"
  by (induction xs) simp_all

lemma datesToISOProperties_append:
  "datesToISOProperties (xs @ ys) = datesToISOProperties xs @ datesToISOProperties ys"
  by (induction xs) simp_all

lemma plain_valueOfScreenshots:
  "defined (valueOfScreenshots s)" "datesToISO (valueOfScreenshots s) = valueOfScreenshots s"
  by (simp_all add: valueOfScreenshots_def definedProperties_append
      datesToISOProperties_append plain_optional_strings)

lemma plain_valueOfBoundingBox:
  "defined (valueOfBoundingBox b)" "datesToISO (valueOfBoundingBox b) = valueOfBoundingBox b"
  by (simp_all add: valueOfBoundingBox_def)

lemma plain_optional_boxes:
  "definedProperties (optionalProp k valueOfBoundingBox x)"
  "datesToISOProperties (optionalProp k valueOfBoundingBox x)
     = optionalProp k valueOfBoundingBox x"
  by (cases x; simp add: plain_valueOfBoundingBox)+

lemma plain_valueOfBounds:
  "defined (valueOfBounds b)" "datesToISO (valueOfBounds b) = valueOfBounds b"
  by (simp_all add: valueOfBounds_def definedProperties_append
      datesToISOProperties_append plain_optional_boxes)

lemma plain_valueOfProp:
  "defined (valueOfProp p)" "datesToISO (valueOfProp p) = valueOfProp p"
  by (simp_all add: valueOfProp_def definedProperties_append
      datesToISOProperties_append plain_optional_strings)

lemma plain_props:
  "definedElements (map valueOfProp ps)"
  "datesToISOElements (map valueOfProp ps) = map valueOfProp ps"
  by (induction ps) (simp_all add: plain_valueOfProp)

lemma plain_style_entries:
  "definedProperties (map (\<lambda>kv. (fst kv, VStr (snd kv))) kvs)"
  "datesToISOProperties (map (\<lambda>kv. (fst kv, VStr (snd kv))) kvs)
     = map (\<lambda>kv. (fst kv, VStr (snd kv))) kvs"
  by (induction kvs) simp_all

lemma plain_valueOfStyles:
  "defined (valueOfStyles st)" "datesToISO (valueOfStyles st) = valueOfStyles st"
  by (simp_all add: valueOfStyles_def plain_style_entries)

lemma plain_valueOfPage:
  "defined (valueOfPage p)" "datesToISO (valueOfPage p) = valueOfPage p"
  by (simp_all add: valueOfPage_def plain_valueOfStrings plain_valueOfScreenshots)

lemma plain_pages:
  "definedElements (map valueOfPage ps)"
  "datesToISOElements (map valueOfPage ps) = map valueOfPage ps"
  by (induction ps) (simp_all add: plain_valueOfPage)

lemma plain_valueOfFramework:
  "defined (valueOfFramework f)" "datesToISO (valueOfFramework f) = valueOfFramework f"
  by (cases f; simp)+

lemma plain_valueOfEmbedding:
  "defined (valueOfEmbedding e)" "datesToISO (valueOfEmbedding e) = valueOfEmbedding e"
  by (simp_all add: valueOfEmbedding_def plain_valueOfNumbers)

lemma plain_embedding_entries:
  "definedProperties (map (\<lambda>ke. (fst ke, valueOfEmbedding (snd ke))) es)"
  "datesToISOProperties (map (\<lambda>ke. (fst ke, valueOfEmbedding (snd ke))) es)
     = map (\<lambda>ke. (fst ke, valueOfEmbedding (snd ke))) es"
  by (induction es) (simp_all add: plain_valueOfEmbedding)

lemma plain_optional_embeddings:
  "definedProperties (optionalProp k valueOfEmbeddings x)"
  "datesToISOProperties (optionalProp k valueOfEmbeddings x)
     = optionalProp k valueOfEmbeddings x"
  by (cases x; simp add: valueOfEmbeddings_def plain_embedding_entries)+

lemma timestamp_value:
  "defined (valueOfTimestamp ts)"
  "datesToISO (valueOfTimestamp ts) = valueOfTimestamp (isoTimestamp ts)"
  by (cases ts; simp)+

lemma component_value:
  "defined (valueOfComponent c)"
  "datesToISO (valueOfComponent c)
     = valueOfComponent (c \<lparr> c_lastModified := isoTimestamp (c_lastModified c) \<rparr>)"
  by (simp_all add: valueOfComponent_def plain_valueOfStrings plain_valueOfScreenshots
      plain_valueOfBounds plain_props plain_valueOfStyles timestamp_value)

lemma components_value:
  "definedElements (map valueOfComponent cs)"
  "datesToISOElements (map valueOfComponent cs)
     = map valueOfComponent
         (map (\<lambda>c. c \<lparr> c_lastModified := isoTimestamp (c_lastModified c) \<rparr>) cs)"
  by (induction cs) (simp_all add: component_value)

lemma metadata_value:
  "defined (valueOfMetadata m)"
  "datesToISO (valueOfMetadata m)
     = valueOfMetadata (m \<lparr> m_lastIndexed := isoTimestamp (m_lastIndexed m) \<rparr>)"
  by (simp_all add: valueOfMetadata_def plain_valueOfFramework timestamp_value)

lemma index_value:
  "defined (valueOfIndex idx)"
  "datesToISO (valueOfIndex idx) = valueOfIndex (isoDates idx)"
  by (simp_all add: valueOfIndex_def isoDates_def definedProperties_append
      datesToISOProperties_append metadata_value components_value plain_pages
      plain_optional_embeddings)

lemma isoTimestamp_idem: "isoTimestamp (isoTimestamp ts) = isoTimestamp ts"
  by (cases ts) simp_all

lemma isoDates_idem: "isoDates (isoDates idx) = isoDates idx"
  by (simp add: isoDates_def isoTimestamp_idem comp_def)

lemma valueOfIndex_object: "\<exists>kvs. valueOfIndex idx = VObj kvs"
  by (simp add: valueOfIndex_def)

lemma save_then_load:
  "\<exists>doc. saveIndex \<lparr> pi_projectPath = p, pi_index = idx \<rparr> fs
            = Some (fs (indexPath p \<mapsto> Document doc))
         \<and> loadIndex p (fs (indexPath p \<mapsto> Document doc)) = Some (valueOfIndex (isoDates idx))"
proof -
  obtain doc where doc: "stringify (valueOfIndex idx) = Some doc"
    "parseValue doc = valueOfIndex (isoDates idx)"
    using roundtrip_values(1) [OF index_value(1), of idx] index_value(2) [of idx] by auto
  obtain kvs where kvs: "valueOfIndex (isoDates idx) = VObj kvs"
    using valueOfIndex_object by blast
  have "saveIndex \<lparr> pi_projectPath = p, pi_index = idx \<rparr> fs
            = Some (fs (indexPath p \<mapsto> Document doc))"
    by (simp add: saveIndex_def doc(1))
  moreover have "loadIndex p (fs (indexPath p \<mapsto> Document doc))
                   = Some (valueOfIndex (isoDates idx))"
    by (simp add: loadIndex_def doc(2) kvs)
  ultimately show ?thesis by blast
qed

lemma lastIndexed_prop:
  "getProp ''lastIndexed'' (getProp ''metadata'' (valueOfIndex idx))
     = valueOfTimestamp (m_lastIndexed (metadata idx))"
  by (simp add: valueOfIndex_def valueOfMetadata_def)

lemma lastModified_prop:
  "components idx = c # cs \<Longrightarrow>
   getProp ''lastModified'' (getElement 0 (getProp ''components'' (valueOfIndex idx)))
     = valueOfTimestamp (c_lastModified c)"
  by (simp add: valueOfIndex_def valueOfComponent_def)

lemma isoDates_fields:
  "m_lastIndexed (metadata (isoDates idx)) = isoTimestamp (m_lastIndexed (metadata idx))"
  "components (isoDates idx)
     = map (\<lambda>c. c \<lparr> c_lastModified := isoTimestamp (c_lastModified c) \<rparr>) (components idx)"
  by (simp_all add: isoDates_def)

lemma iso_epoch: "toISOString 0 = ''1970-01-01T00:00:00.000Z''"
  by code_simp

lemma shopIndex_dates:
  "m_lastIndexed (metadata shopIndex) = DateObj 0"
  "components shopIndex = headerComponent # [cardComponent, footerComponent, submitButton]"
  "c_lastModified headerComponent = DateObj 0"
  by (simp_all add: shopIndex_def indexOfProject_def headerComponent_def
      analyzedComponent_def)

lemma shopIndex_loaded:
  "Option.bind (saveIndex \<lparr> pi_projectPath = ''/shop'', pi_index = shopIndex \<rparr> Map.empty)
               (loadIndex ''/shop'')
     = Some (valueOfIndex (isoDates shopIndex))"
  using save_then_load [of "''/shop''" shopIndex Map.empty] by auto

text \<open>
  Claim C1, as the code has it. \<open>saveIndex\<close> writes a document, and \<open>loadIndex\<close> of
  the same project path then returns the index with every field as it was, except that
  \<open>metadata.lastIndexed\<close> and each component's \<open>lastModified\<close> hold the ISO string of
  the \<open>Date\<close> they held; a date field that already held a string keeps it. So an index
  that went through one round trip goes through the next one unchanged.
\<close>

theorem save_load_dates_as_strings:
  "(\<exists>doc. saveIndex \<lparr> pi_projectPath = p, pi_index = idx \<rparr> fs
             = Some (fs (indexPath p \<mapsto> Document doc))
          \<and> loadIndex p (fs (indexPath p \<mapsto> Document doc))
             = Some (valueOfIndex (isoDates idx)))
   \<and> (\<exists>doc. saveIndex \<lparr> pi_projectPath = p, pi_index = isoDates idx \<rparr> fs
             = Some (fs (indexPath p \<mapsto> Document doc))
          \<and> loadIndex p (fs (indexPath p \<mapsto> Document doc))
             = Some (valueOfIndex (isoDates idx)))"
  using save_then_load [of p idx fs] save_then_load [of p "isoDates idx" fs]
  by (simp only: isoDates_idem)

text \<open>
  The theorem at the shop index, saved into an empty file system: the loaded value is
  the index with the dates as strings, and its \<open>metadata.lastIndexed\<close> is the ISO string
  of the epoch.
\<close>

theorem save_load_dates_as_strings_witness:
  "Option.bind (saveIndex \<lparr> pi_projectPath = ''/shop'', pi_index = shopIndex \<rparr> Map.empty)
               (loadIndex ''/shop'')
     = Some (valueOfIndex (isoDates shopIndex))
   \<and> m_lastIndexed (metadata (isoDates shopIndex)) = DateString ''1970-01-01T00:00:00.000Z''"
proof -
  have "m_lastIndexed (metadata (isoDates shopIndex)) = DateString ''1970-01-01T00:00:00.000Z''"
    by (simp add: isoDates_fields shopIndex_dates iso_epoch)
  then show ?thesis
    using save_load_dates_as_strings [of "''/shop''" shopIndex Map.empty] by auto
qed

text \<open>
  Claim C1 as it is written fails at the shop index, whose dates are \<open>Date\<close> objects as
  the indexer creates them: after \<open>saveIndex\<close> and \<open>loadIndex\<close> the field
  \<open>metadata.lastIndexed\<close> and the field \<open>lastModified\<close> of the first component hold
  strings, not the \<open>Date\<close> objects of the original, and the loaded value is not equal to
  the index.
\<close>

theorem save_load_counterexample:
  "getProp ''lastIndexed'' (getProp ''metadata'' (valueOfIndex shopIndex)) = VDate 0
   \<and> map_option (\<lambda>v. getProp ''lastIndexed'' (getProp ''metadata'' v))
        (Option.bind
           (saveIndex \<lparr> pi_projectPath = ''/shop'', pi_index = shopIndex \<rparr> Map.empty)
           (loadIndex ''/shop''))
       = Some (VStr ''1970-01-01T00:00:00.000Z'')
   \<and> getProp ''lastModified'' (getElement 0 (getProp ''components'' (valueOfIndex shopIndex)))
       = VDate 0
   \<and> map_option (\<lambda>v. getProp ''lastModified'' (getElement 0 (getProp ''components'' v)))
        (Option.bind
           (saveIndex \<lparr> pi_projectPath = ''/shop'', pi_index = shopIndex \<rparr> Map.empty)
           (loadIndex ''/shop''))
       = Some (VStr ''1970-01-01T00:00:00.000Z'')
   \<and> Option.bind
        (saveIndex \<lparr> pi_projectPath = ''/shop'', pi_index = shopIndex \<rparr> Map.empty)
        (loadIndex ''/shop'')
       \<noteq> Some (valueOfIndex shopIndex)"
proof -
  have a: "getProp ''lastIndexed'' (getProp ''metadata'' (valueOfIndex shopIndex)) = VDate 0"
    by (simp add: lastIndexed_prop shopIndex_dates)
  have b: "getProp ''lastIndexed'' (getProp ''metadata'' (valueOfIndex (isoDates shopIndex)))
             = VStr ''1970-01-01T00:00:00.000Z''"
    by (simp add: lastIndexed_prop isoDates_fields shopIndex_dates iso_epoch)
  have c: "getProp ''lastModified''
             (getElement 0 (getProp ''components'' (valueOfIndex shopIndex))) = VDate 0"
    by (simp add: lastModified_prop [OF shopIndex_dates(2)] shopIndex_dates(3))
  have "components (isoDates shopIndex)
          = headerComponent \<lparr> c_lastModified := isoTimestamp (c_lastModified headerComponent) \<rparr>
            # map (\<lambda>c. c \<lparr> c_lastModified := isoTimestamp (c_lastModified c) \<rparr>)
                  [cardComponent, footerComponent, submitButton]"
    by (simp add: isoDates_fields shopIndex_dates(2))
  from lastModified_prop [OF this]
  have d: "getProp ''lastModified''
             (getElement 0 (getProp ''components'' (valueOfIndex (isoDates shopIndex))))
           = VStr ''1970-01-01T00:00:00.000Z''"
    by (simp add: shopIndex_dates(3) iso_epoch)
  have e: "valueOfIndex (isoDates shopIndex) \<noteq> valueOfIndex shopIndex"
    using a b by auto
  show ?thesis
    unfolding shopIndex_loaded using a b c d e by simp
qed

end
